theory Spec2Isabelle
  imports Complex_Main "HOL-Library.Word"
begin

section \<open>JavaScript numbers\<close>

text \<open>
  The quality estimator of \<^verbatim>\<open>static/js/script.js\<close> computes with JavaScript numbers.
  A number is modelled as a real or \<open>NaN\<close>. \<open>NaN\<close> is kept because the code produces it
  on an empty buffer (\<open>0 / 0\<close>) and on a read past the end of the pixel array
  (\<open>undefined\<close> in an addition). No infinity arises in the code modelled here: every
  divisor is a non-zero constant or the pixel count, which is checked before it divides.

  The operations of this section are those of the reals: every finite intermediate value
  is taken exactly. The estimator with the rounding of the doubles follows in the section
  on double precision arithmetic, where this one is the arithmetic that rounds nothing.
\<close>

datatype number = NaN | Num real

fun nadd :: "number \<Rightarrow> number \<Rightarrow> number" where
  "nadd (Num x) (Num y) = Num (x + y)"
| "nadd _ _ = NaN"

fun nsub :: "number \<Rightarrow> number \<Rightarrow> number" where
  "nsub (Num x) (Num y) = Num (x - y)"
| "nsub _ _ = NaN"

fun nmul :: "number \<Rightarrow> number \<Rightarrow> number" where
  "nmul (Num x) (Num y) = Num (x * y)"
| "nmul _ _ = NaN"

text \<open>Division by a divisor that is not zero.\<close>

fun ndiv :: "number \<Rightarrow> real \<Rightarrow> number" where
  "ndiv (Num x) y = Num (x / y)"
| "ndiv NaN y = NaN"

text \<open>\<^verbatim>\<open>Math.abs\<close>, \<^verbatim>\<open>Math.sqrt\<close>, \<^verbatim>\<open>Math.min\<close> and \<^verbatim>\<open>Math.pow(x, 2)\<close>.\<close>

fun Math_abs :: "number \<Rightarrow> number" where
  "Math_abs (Num x) = Num \<bar>x\<bar>"
| "Math_abs NaN = NaN"

fun Math_sqrt :: "number \<Rightarrow> number" where
  "Math_sqrt (Num x) = (if x < 0 then NaN else Num (sqrt x))"
| "Math_sqrt NaN = NaN"

fun Math_min :: "number \<Rightarrow> number \<Rightarrow> number" where
  "Math_min (Num x) (Num y) = Num (min x y)"
| "Math_min _ _ = NaN"

fun Math_pow2 :: "number \<Rightarrow> number" where
  "Math_pow2 (Num x) = Num (x * x)"
| "Math_pow2 NaN = NaN"

text \<open>The comparison \<^verbatim>\<open>x >= c\<close> against a numeric literal: false on \<open>NaN\<close>.\<close>

fun nge :: "number \<Rightarrow> real \<Rightarrow> bool" where
  "nge (Num x) c = (c \<le> x)"
| "nge NaN c = False"

section \<open>Image quality estimator\<close>

text \<open>
  \<^verbatim>\<open>ImageData\<close>: the pixel array is a \<^verbatim>\<open>Uint8ClampedArray\<close>, four bytes (R, G, B, A)
  for each pixel in row-major order.
\<close>

record imageData =
  data :: "8 word list"
  width :: nat
  height :: nat

text \<open>
  \<^verbatim>\<open>data[i]\<close> used as an operand of \<^verbatim>\<open>+\<close>: the byte as a number, and \<open>NaN\<close> past the
  end of the array (the read gives \<^verbatim>\<open>undefined\<close>).
\<close>

definition rd :: "8 word list \<Rightarrow> nat \<Rightarrow> number" where
  "rd d i = (if i < length d then Num (real (unat (d ! i))) else NaN)"

text \<open>\<^verbatim>\<open>(data[i] + data[i + 1] + data[i + 2]) / 3\<close>\<close>

definition pixelBrightness :: "8 word list \<Rightarrow> nat \<Rightarrow> number" where
  "pixelBrightness d i = ndiv (nadd (nadd (rd d i) (rd d (i + 1))) (rd d (i + 2))) 3"

text \<open>
  The first loop, \<^verbatim>\<open>for (let i = 0; i < data.length; i += 4) brightness += ...\<close>,
  from index \<open>i\<close> with the running sum \<open>acc\<close>.
\<close>

function brightnessLoop :: "8 word list \<Rightarrow> nat \<Rightarrow> number \<Rightarrow> number" where
  "brightnessLoop d i acc =
     (if i < length d then brightnessLoop d (i + 4) (nadd acc (pixelBrightness d i))
      else acc)"
  by pat_completeness auto
termination
  by (relation "measure (\<lambda>(d, i, acc). length d - i)") auto

text \<open>
  The second loop, which adds \<^verbatim>\<open>Math.pow(pixelBrightness - brightness, 2)\<close> to
  \<^verbatim>\<open>sumSquaredDiff\<close>.
\<close>

function contrastLoop :: "8 word list \<Rightarrow> number \<Rightarrow> nat \<Rightarrow> number \<Rightarrow> number" where
  "contrastLoop d b i acc =
     (if i < length d
      then contrastLoop d b (i + 4) (nadd acc (Math_pow2 (nsub (pixelBrightness d i) b)))
      else acc)"
  by pat_completeness auto
termination
  by (relation "measure (\<lambda>(d, b, i, acc). length d - i)") auto

text \<open>
  \<^verbatim>\<open>brightness /= (data.length / 4)\<close>. On an empty array the sum is \<open>0\<close> and the
  divisor is \<open>0\<close>, and \<open>0 / 0\<close> is \<open>NaN\<close>.
\<close>

definition brightness :: "8 word list \<Rightarrow> number" where
  "brightness d =
     (if length d = 0 then NaN
      else ndiv (brightnessLoop d 0 (Num 0)) (real (length d) / 4))"

text \<open>\<^verbatim>\<open>contrast = Math.sqrt(sumSquaredDiff / (data.length / 4))\<close>\<close>

definition contrast :: "8 word list \<Rightarrow> number" where
  "contrast d =
     (if length d = 0 then NaN
      else Math_sqrt (ndiv (contrastLoop d (brightness d) 0 (Num 0)) (real (length d) / 4)))"

definition brightnessScore :: "8 word list \<Rightarrow> number" where
  "brightnessScore d = nsub (Num 1) (ndiv (Math_abs (nsub (brightness d) (Num 127))) 127)"

definition contrastScore :: "8 word list \<Rightarrow> number" where
  "contrastScore d = Math_min (ndiv (contrast d) 64) (Num 1)"

definition calculateImageQuality :: "imageData \<Rightarrow> number" where
  "calculateImageQuality imageData =
     (let d = data imageData
      in nadd (nmul (brightnessScore d) (Num 0.4)) (nmul (contrastScore d) (Num 0.6)))"

definition generateQualityFeedback :: "number \<Rightarrow> string" where
  "generateQualityFeedback qualityScore =
     (if nge qualityScore 0.8 then ''Excellent image quality''
      else if nge qualityScore 0.6 then ''Good image quality''
      else if nge qualityScore 0.4
        then ''Fair image quality - consider retaking with better lighting''
      else ''Poor image quality - please retake with better lighting and focus'')"

subsection \<open>The estimator as the specification words it\<close>

text \<open>
  The number of pixels of an RGBA buffer, the mean of the three colour channels of pixel
  \<open>k\<close>, and the statistics of the specification over them.
\<close>

definition pixelCount :: "8 word list \<Rightarrow> nat" where
  "pixelCount d = length d div 4"

definition pixelMean :: "8 word list \<Rightarrow> nat \<Rightarrow> real" where
  "pixelMean d k =
     (real (unat (d ! (4 * k))) + real (unat (d ! (4 * k + 1))) + real (unat (d ! (4 * k + 2)))) / 3"

definition spec_brightness :: "8 word list \<Rightarrow> real" where
  "spec_brightness d = (\<Sum>k<pixelCount d. pixelMean d k) / real (pixelCount d)"

definition spec_contrast :: "8 word list \<Rightarrow> real" where
  "spec_contrast d =
     sqrt ((\<Sum>k<pixelCount d. (pixelMean d k - spec_brightness d)\<^sup>2) / real (pixelCount d))"

definition spec_brightnessScore :: "8 word list \<Rightarrow> real" where
  "spec_brightnessScore d = 1 - \<bar>spec_brightness d - 127\<bar> / 127"

definition spec_contrastScore :: "8 word list \<Rightarrow> real" where
  "spec_contrastScore d = min (spec_contrast d / 64) 1"

definition spec_score :: "8 word list \<Rightarrow> real" where
  "spec_score d = 0.4 * spec_brightnessScore d + 0.6 * spec_contrastScore d"

text \<open>A well-formed RGBA buffer with at least one pixel.\<close>

definition rgba_buffer :: "8 word list \<Rightarrow> bool" where
  "rgba_buffer d = (d \<noteq> [] \<and> length d mod 4 = 0)"

text \<open>A buffer in which every pixel has R = G = B = 127 (the alpha channel is free).\<close>

definition gray127 :: "8 word list \<Rightarrow> bool" where
  "gray127 d =
     (\<forall>k<pixelCount d. d ! (4 * k) = 127 \<and> d ! (4 * k + 1) = 127 \<and> d ! (4 * k + 2) = 127)"

section \<open>Double precision arithmetic\<close>

text \<open>
  The numbers of the program are IEEE 754 doubles: every addition, subtraction,
  multiplication and division, and every numeric literal, is rounded to the nearest
  double, ties to even. A double is \<open>m * 2 ^ e\<close> with \<open>|m| < 2 ^ 53\<close>; \<open>binade x\<close> is the
  exponent \<open>e\<close> with \<open>2 ^ e \<le> |x| < 2 ^ (e + 1)\<close>, and below \<open>2 ^ (- 1022)\<close> the spacing of the
  doubles stays that of the last binade (the subnormal numbers). Two things are left
  out: the overflow to an infinity above \<open>2 ^ 1024\<close>, which the estimator is far from
  (its sums are bounded by 65025 times the number of pixels), and the sign of zero,
  which no operation of the estimator can observe.
\<close>

definition twoTo :: "int \<Rightarrow> real" where
  "twoTo e = (if 0 \<le> e then 2 ^ nat e else 1 / 2 ^ nat (- e))"

definition roundTiesToEven :: "real \<Rightarrow> int" where
  "roundTiesToEven r =
     (let f = \<lfloor>r\<rfloor>; d = r - of_int f
      in if d < 1 / 2 then f else if 1 / 2 < d then f + 1 else if even f then f else f + 1)"

function binade :: "real \<Rightarrow> int" where
  "binade x =
     (if x = 0 then 0
      else if 2 \<le> \<bar>x\<bar> then binade (x / 2) + 1
      else if \<bar>x\<bar> < 1 then binade (2 * x) - 1
      else 0)"
  by pat_completeness auto
termination
proof (relation "measure (\<lambda>x. nat \<bar>\<lfloor>log 2 \<bar>x\<bar>\<rfloor>\<bar>)")
  show "wf (measure (\<lambda>x. nat \<bar>\<lfloor>log 2 \<bar>x\<bar>\<rfloor>\<bar>))" by simp
next
  fix x :: real
  assume "x \<noteq> 0" and big: "2 \<le> \<bar>x\<bar>"
  then have "log 2 \<bar>x / 2\<bar> = log 2 \<bar>x\<bar> - 1"
    by (simp add: log_divide)
  then have e: "\<lfloor>log 2 \<bar>x / 2\<bar>\<rfloor> = \<lfloor>log 2 \<bar>x\<bar>\<rfloor> - 1" by simp
  have "1 \<le> log 2 \<bar>x\<bar>" using big by (simp add: le_log_iff)
  then have f: "1 \<le> \<lfloor>log 2 \<bar>x\<bar>\<rfloor>" by (simp add: le_floor_iff)
  from e f have "nat \<bar>\<lfloor>log 2 \<bar>x / 2\<bar>\<rfloor>\<bar> < nat \<bar>\<lfloor>log 2 \<bar>x\<bar>\<rfloor>\<bar>" by linarith
  then show "(x / 2, x) \<in> measure (\<lambda>x. nat \<bar>\<lfloor>log 2 \<bar>x\<bar>\<rfloor>\<bar>)" by simp
next
  fix x :: real
  assume nz: "x \<noteq> 0" and "\<not> 2 \<le> \<bar>x\<bar>" and small: "\<bar>x\<bar> < 1"
  then have "log 2 \<bar>2 * x\<bar> = log 2 \<bar>x\<bar> + 1"
    by (simp add: abs_mult log_mult)
  then have e: "\<lfloor>log 2 \<bar>2 * x\<bar>\<rfloor> = \<lfloor>log 2 \<bar>x\<bar>\<rfloor> + 1" by simp
  have f: "\<lfloor>log 2 \<bar>x\<bar>\<rfloor> < 0" using small nz by (simp add: floor_less_iff)
  from e f have "nat \<bar>\<lfloor>log 2 \<bar>2 * x\<bar>\<rfloor>\<bar> < nat \<bar>\<lfloor>log 2 \<bar>x\<bar>\<rfloor>\<bar>" by linarith
  then show "(2 * x, x) \<in> measure (\<lambda>x. nat \<bar>\<lfloor>log 2 \<bar>x\<bar>\<rfloor>\<bar>)" by simp
qed

text \<open>The double nearest to a real.\<close>

definition fl :: "real \<Rightarrow> real" where
  "fl x =
     (let q = twoTo (max (binade x) (- 1022) - 52)
      in of_int (roundTiesToEven (x / q)) * q)"

text \<open>
  An arithmetic: the rounding of the four operations and of the literals, and the
  functions \<^verbatim>\<open>Math.pow(x, 2)\<close> and \<^verbatim>\<open>Math.sqrt(x)\<close>, whose accuracy ECMAScript leaves to the
  implementation. \<open>exact\<close> is the arithmetic of the reals, in which nothing is rounded.
  \<open>binary64\<close> is the arithmetic of the doubles, with the power and the square root
  rounded correctly; at zero, where the two are used below, the standard fixes both
  at zero.
\<close>

record arith =
  rnd :: "real \<Rightarrow> real"
  pow2 :: "real \<Rightarrow> real"
  sqroot :: "real \<Rightarrow> real"

definition exact :: arith where
  "exact = \<lparr>rnd = (\<lambda>x. x), pow2 = (\<lambda>x. x * x), sqroot = sqrt\<rparr>"

definition binary64 :: arith where
  "binary64 = \<lparr>rnd = fl, pow2 = (\<lambda>x. fl (x * x)), sqroot = (\<lambda>x. fl (sqrt x))\<rparr>"

fun radd :: "arith \<Rightarrow> number \<Rightarrow> number \<Rightarrow> number" where
  "radd ar (Num x) (Num y) = Num (rnd ar (x + y))"
| "radd ar _ _ = NaN"

fun rsub :: "arith \<Rightarrow> number \<Rightarrow> number \<Rightarrow> number" where
  "rsub ar (Num x) (Num y) = Num (rnd ar (x - y))"
| "rsub ar _ _ = NaN"

fun rmul :: "arith \<Rightarrow> number \<Rightarrow> number \<Rightarrow> number" where
  "rmul ar (Num x) (Num y) = Num (rnd ar (x * y))"
| "rmul ar _ _ = NaN"

text \<open>Division by a divisor that is not zero.\<close>

fun rdiv :: "arith \<Rightarrow> number \<Rightarrow> real \<Rightarrow> number" where
  "rdiv ar (Num x) y = Num (rnd ar (x / y))"
| "rdiv ar NaN y = NaN"

fun rsqrt :: "arith \<Rightarrow> number \<Rightarrow> number" where
  "rsqrt ar (Num x) = (if x < 0 then NaN else Num (sqroot ar x))"
| "rsqrt ar NaN = NaN"

fun rpow2 :: "arith \<Rightarrow> number \<Rightarrow> number" where
  "rpow2 ar (Num x) = Num (pow2 ar x)"
| "rpow2 ar NaN = NaN"

subsection \<open>The estimator in an arithmetic\<close>

text \<open>
  \<^verbatim>\<open>calculateImageQuality\<close> with every operation in the arithmetic \<open>ar\<close>: the same loops
  and expressions as above, each result rounded. \<^verbatim>\<open>Math.abs\<close> and \<^verbatim>\<open>Math.min\<close> round
  nothing. The divisor \<^verbatim>\<open>data.length / 4\<close> is itself a quotient of the arithmetic, and
  \<^verbatim>\<open>0.4\<close> and \<^verbatim>\<open>0.6\<close> are its literals.
\<close>

definition pixelBrightnessIn :: "arith \<Rightarrow> 8 word list \<Rightarrow> nat \<Rightarrow> number" where
  "pixelBrightnessIn ar d i =
     rdiv ar (radd ar (radd ar (rd d i) (rd d (i + 1))) (rd d (i + 2))) 3"

function brightnessLoopIn :: "arith \<Rightarrow> 8 word list \<Rightarrow> nat \<Rightarrow> number \<Rightarrow> number" where
  "brightnessLoopIn ar d i acc =
     (if i < length d
      then brightnessLoopIn ar d (i + 4) (radd ar acc (pixelBrightnessIn ar d i))
      else acc)"
  by pat_completeness auto
termination
  by (relation "measure (\<lambda>(ar, d, i, acc). length d - i)") auto

function contrastLoopIn ::
  "arith \<Rightarrow> 8 word list \<Rightarrow> number \<Rightarrow> nat \<Rightarrow> number \<Rightarrow> number" where
  "contrastLoopIn ar d b i acc =
     (if i < length d
      then contrastLoopIn ar d b (i + 4)
             (radd ar acc (rpow2 ar (rsub ar (pixelBrightnessIn ar d i) b)))
      else acc)"
  by pat_completeness auto
termination
  by (relation "measure (\<lambda>(ar, d, b, i, acc). length d - i)") auto

definition brightnessIn :: "arith \<Rightarrow> 8 word list \<Rightarrow> number" where
  "brightnessIn ar d =
     (if length d = 0 then NaN
      else rdiv ar (brightnessLoopIn ar d 0 (Num 0)) (rnd ar (real (length d) / 4)))"

definition contrastIn :: "arith \<Rightarrow> 8 word list \<Rightarrow> number" where
  "contrastIn ar d =
     (if length d = 0 then NaN
      else rsqrt ar (rdiv ar (contrastLoopIn ar d (brightnessIn ar d) 0 (Num 0))
                       (rnd ar (real (length d) / 4))))"

definition brightnessScoreIn :: "arith \<Rightarrow> 8 word list \<Rightarrow> number" where
  "brightnessScoreIn ar d =
     rsub ar (Num 1) (rdiv ar (Math_abs (rsub ar (brightnessIn ar d) (Num 127))) 127)"

definition contrastScoreIn :: "arith \<Rightarrow> 8 word list \<Rightarrow> number" where
  "contrastScoreIn ar d = Math_min (rdiv ar (contrastIn ar d) 64) (Num 1)"

definition calculateImageQualityIn :: "arith \<Rightarrow> imageData \<Rightarrow> number" where
  "calculateImageQualityIn ar imageData =
     (let d = data imageData
      in radd ar (rmul ar (brightnessScoreIn ar d) (Num (rnd ar 0.4)))
                 (rmul ar (contrastScoreIn ar d) (Num (rnd ar 0.6))))"

subsection \<open>The formula of the specification in an arithmetic\<close>

text \<open>
  The statistics of the specification with every operation in the arithmetic \<open>ar\<close>: the
  per-pixel mean, a sum accumulated from the first pixel to the last, the mean of the
  per-pixel means, the square root of the mean of their squared distances from it, the
  two scores and their weighted sum. The contrast is \<open>NaN\<close> where the arithmetic would
  hand a negative number to the square root.
\<close>

definition pixelMeanIn :: "arith \<Rightarrow> 8 word list \<Rightarrow> nat \<Rightarrow> real" where
  "pixelMeanIn ar d k =
     rnd ar (rnd ar (rnd ar (real (unat (d ! (4 * k))) + real (unat (d ! (4 * k + 1))))
                     + real (unat (d ! (4 * k + 2)))) / 3)"

definition sumIn :: "arith \<Rightarrow> real list \<Rightarrow> real" where
  "sumIn ar xs = foldl (\<lambda>a x. rnd ar (a + x)) 0 xs"

definition spec_brightnessIn :: "arith \<Rightarrow> 8 word list \<Rightarrow> real" where
  "spec_brightnessIn ar d =
     rnd ar (sumIn ar (map (pixelMeanIn ar d) [0..<pixelCount d])
             / rnd ar (real (pixelCount d)))"

definition spec_varianceIn :: "arith \<Rightarrow> 8 word list \<Rightarrow> real" where
  "spec_varianceIn ar d =
     rnd ar (sumIn ar (map (\<lambda>k. pow2 ar (rnd ar (pixelMeanIn ar d k - spec_brightnessIn ar d)))
                         [0..<pixelCount d])
             / rnd ar (real (pixelCount d)))"

definition spec_brightnessScoreIn :: "arith \<Rightarrow> 8 word list \<Rightarrow> real" where
  "spec_brightnessScoreIn ar d =
     rnd ar (1 - rnd ar (\<bar>rnd ar (spec_brightnessIn ar d - 127)\<bar> / 127))"

definition spec_contrastScoreIn :: "arith \<Rightarrow> 8 word list \<Rightarrow> real" where
  "spec_contrastScoreIn ar d = min (rnd ar (sqroot ar (spec_varianceIn ar d) / 64)) 1"

definition spec_scoreIn :: "arith \<Rightarrow> 8 word list \<Rightarrow> number" where
  "spec_scoreIn ar d =
     (if spec_varianceIn ar d < 0 then NaN
      else Num (rnd ar (rnd ar (rnd ar 0.4 * spec_brightnessScoreIn ar d)
                        + rnd ar (rnd ar 0.6 * spec_contrastScoreIn ar d))))"

section \<open>Strings\<close>

text \<open>
  A JavaScript string is a sequence of UTF-16 code units; \<^verbatim>\<open>length\<close>, \<^verbatim>\<open>trim\<close>, the
  regular expressions without the \<^verbatim>\<open>u\<close> flag and \<^verbatim>\<open>parseInt\<close> all work on code units.
  Field values are modelled so. Element types, field names, MIME types and messages are
  only compared with ASCII constants or displayed, and are plain strings.
\<close>

type_synonym jsstring = "16 word list"

text \<open>An ASCII literal as a JavaScript string.\<close>

definition js :: "string \<Rightarrow> jsstring" where
  "js s = map (\<lambda>c. of_nat (of_char c)) s"

text \<open>
  The code units that \<^verbatim>\<open>trim\<close>, the class \<^verbatim>\<open>\s\<close> and \<^verbatim>\<open>parseInt\<close> treat as white space:
  the white space and line terminator code points of ECMAScript.
\<close>

definition isWhiteSpace :: "16 word \<Rightarrow> bool" where
  "isWhiteSpace c =
     (c = 0x9 \<or> c = 0xA \<or> c = 0xB \<or> c = 0xC \<or> c = 0xD \<or> c = 0x20 \<or> c = 0xA0 \<or>
      c = 0x1680 \<or> (0x2000 \<le> c \<and> c \<le> 0x200A) \<or> c = 0x2028 \<or> c = 0x2029 \<or>
      c = 0x202F \<or> c = 0x205F \<or> c = 0x3000 \<or> c = 0xFEFF)"

text \<open>The class \<^verbatim>\<open>[a-zA-Z]\<close>.\<close>

definition isAsciiLetter :: "16 word \<Rightarrow> bool" where
  "isAsciiLetter c = ((0x61 \<le> c \<and> c \<le> 0x7A) \<or> (0x41 \<le> c \<and> c \<le> 0x5A))"

text \<open>\<^verbatim>\<open>String.prototype.trim\<close>\<close>

definition trim :: "jsstring \<Rightarrow> jsstring" where
  "trim s = rev (dropWhile isWhiteSpace (rev (dropWhile isWhiteSpace s)))"

text \<open>
  \<^verbatim>\<open>/^[a-zA-Z\s]+$/.test(value)\<close>: without the multiline flag the anchors are the two
  ends of the string, so the whole string is one or more characters of the class.
\<close>

definition test_letters_whitespace :: "jsstring \<Rightarrow> bool" where
  "test_letters_whitespace s = (s \<noteq> [] \<and> list_all (\<lambda>c. isAsciiLetter c \<or> isWhiteSpace c) s)"

subsection \<open>\<^verbatim>\<open>parseInt\<close> with no radix argument\<close>

text \<open>
  The value of a code unit as a digit: \<open>0\<close> to \<open>9\<close>, then the letters of either case from
  10 to 35; any other code unit gets 36, which is a digit of no radix.
\<close>

definition digitValue :: "16 word \<Rightarrow> nat" where
  "digitValue c =
     (if 0x30 \<le> c \<and> c \<le> 0x39 then unat c - 48
      else if 0x61 \<le> c \<and> c \<le> 0x7A then unat c - 87
      else if 0x41 \<le> c \<and> c \<le> 0x5A then unat c - 55
      else 36)"

definition isRadixDigit :: "nat \<Rightarrow> 16 word \<Rightarrow> bool" where
  "isRadixDigit R c = (digitValue c < R)"

definition digitsValue :: "nat \<Rightarrow> jsstring \<Rightarrow> nat" where
  "digitsValue R Z = foldl (\<lambda>a c. a * R + digitValue c) 0 Z"

text \<open>
  \<^verbatim>\<open>parseInt(string)\<close> after ECMAScript: leading white space is skipped, a sign is read,
  a prefix \<^verbatim>\<open>0x\<close> or \<^verbatim>\<open>0X\<close> selects radix 16 (radix 10 otherwise), and the longest run
  of digits of the radix is the integer; with no digit the result is \<open>NaN\<close>, here
  \<open>None\<close>. \<open>parseIntDigits\<close> is the part after the sign. The integer is kept exact:
  the code only compares it with 16 and 100, which the rounding of a long digit string to
  a double cannot cross.
\<close>

definition parseIntDigits :: "int \<Rightarrow> jsstring \<Rightarrow> int option" where
  "parseIntDigits sign S =
     (let hex = (take 2 S = [0x30, 0x78] \<or> take 2 S = [0x30, 0x58]);
          R = (if hex then 16 else 10);
          S2 = (if hex then drop 2 S else S);
          Z = takeWhile (isRadixDigit R) S2
      in if Z = [] then None else Some (sign * int (digitsValue R Z)))"

definition parseInt :: "jsstring \<Rightarrow> int option" where
  "parseInt string =
     (let S0 = dropWhile isWhiteSpace string;
          sign = (if take 1 S0 = [0x2D] then - 1 else 1);
          S1 = (if take 1 S0 = [0x2B] \<or> take 1 S0 = [0x2D] then drop 1 S0 else S0)
      in parseIntDigits sign S1)"

section \<open>Validators\<close>

text \<open>A \<^verbatim>\<open>File\<close>: its name, its declared MIME type and its size in bytes.\<close>

record imageFile =
  file_name :: string
  file_type :: string
  file_size :: nat

text \<open>
  A form field (an \<^verbatim>\<open>input\<close> or \<^verbatim>\<open>select\<close> element) with what the validators read and
  write: the element's \<^verbatim>\<open>type\<close>, \<^verbatim>\<open>name\<close>, \<^verbatim>\<open>value\<close>, \<^verbatim>\<open>files\<close> and \<^verbatim>\<open>required\<close>
  attribute, the \<^verbatim>\<open>style.borderColor\<close>, and the texts of the \<^verbatim>\<open>.field-error\<close> elements
  below the field's parent node, in document order (the error annotations).
\<close>

record field =
  field_type :: string
  field_name :: string
  field_value :: jsstring
  field_files :: "imageFile list"
  field_required :: bool
  field_errors :: "string list"
  borderColor :: string

definition validTypes :: "string list" where
  "validTypes = [''image/jpeg'', ''image/jpg'', ''image/png'']"

definition maxSize :: nat where
  "maxSize = 5 * 1024 * 1024"

definition validateImageFile :: "imageFile \<Rightarrow> bool" where
  "validateImageFile file =
     (if file_type file \<notin> set validTypes then False
      else if file_size file > maxSize then False
      else True)"

text \<open>
  \<^verbatim>\<open>clearFieldError\<close> removes the first \<^verbatim>\<open>.field-error\<close> element below the parent
  node, if there is one, and resets the border colour.
\<close>

definition clearFieldError :: "field \<Rightarrow> field" where
  "clearFieldError field =
     field\<lparr>field_errors := (case field_errors field of [] \<Rightarrow> [] | existingError # rest \<Rightarrow> rest),
           borderColor := ''''\<rparr>"

text \<open>
  \<^verbatim>\<open>showFieldError\<close> clears first, then appends a new \<^verbatim>\<open>.field-error\<close> element to the
  parent node and colours the border.
\<close>

definition showFieldError :: "field \<Rightarrow> string \<Rightarrow> field" where
  "showFieldError field message =
     (let cleared = clearFieldError field
      in cleared\<lparr>field_errors := field_errors cleared @ [message], borderColor := ''#e74c3c''\<rparr>)"

text \<open>
  The \<^verbatim>\<open>switch\<close> of \<^verbatim>\<open>validateField\<close>: the pair of \<^verbatim>\<open>isValid\<close> and \<^verbatim>\<open>errorMessage\<close>
  when the \<^verbatim>\<open>switch\<close> is left.
\<close>

definition checkField :: "field \<Rightarrow> bool \<times> string" where
  "checkField field =
     (let v = trim (field_value field) in
      if field_type field = ''text'' then
        (if field_name field = ''full_name'' then
           (if length v < 2 then (False, ''Name must be at least 2 characters long'')
            else if \<not> test_letters_whitespace v
              then (False, ''Name can only contain letters and spaces'')
            else (True, ''''))
         else if field_name field = ''application_id'' then
           (if length v < 3 then (False, ''Application ID must be at least 3 characters long'')
            else (True, ''''))
         else (True, ''''))
      else if field_type field = ''number'' then
        (if field_name field = ''age'' then
           (case parseInt v of
              None \<Rightarrow> (False, ''Age must be between 16 and 100'')
            | Some age \<Rightarrow>
                if age < 16 \<or> age > 100 then (False, ''Age must be between 16 and 100'')
                else (True, ''''))
         else (True, ''''))
      else if field_type field = ''file'' then
        (case field_files field of
           [] \<Rightarrow> (True, '''')
         | file0 # others \<Rightarrow>
             if validateImageFile file0 then (True, '''')
             else (False, ''Please upload a valid image file (JPEG, PNG) under 5MB''))
      else if field_type field = ''select-one'' then
        (if v = [] then (False, ''Please select an option'') else (True, ''''))
      else (True, ''''))"

text \<open>
  \<^verbatim>\<open>validateField\<close> returns \<^verbatim>\<open>isValid\<close>; its effect on the page is the field with the
  error annotation shown or cleared.
\<close>

definition validateField :: "field \<Rightarrow> bool \<times> field" where
  "validateField field =
     (case checkField field of
        (isValid, errorMessage) \<Rightarrow>
          if \<not> isValid then (False, showFieldError field errorMessage)
          else (True, clearFieldError field))"

subsection \<open>The validators as the specification words them\<close>

text \<open>"Length at least 2 and letters and white space only."\<close>

definition spec_name_valid :: "jsstring \<Rightarrow> bool" where
  "spec_name_valid v = (2 \<le> length v \<and> list_all (\<lambda>c. isAsciiLetter c \<or> isWhiteSpace c) v)"

text \<open>
  "An integer in [16, 100]": the value is an integer literal, an optional sign followed by
  one or more decimal digits and nothing else, and the integer it denotes is in the range.
\<close>

definition isIntegerLiteral :: "jsstring \<Rightarrow> bool" where
  "isIntegerLiteral v =
     (let ds = (if take 1 v = [0x2B] \<or> take 1 v = [0x2D] then drop 1 v else v)
      in ds \<noteq> [] \<and> list_all (\<lambda>c. 0x30 \<le> c \<and> c \<le> 0x39) ds)"

text \<open>
  The number a digit string denotes, from its last (least significant) digit: the last
  digit plus ten times the number denoted by the digits before it.
\<close>

primrec decimalValueRev :: "jsstring \<Rightarrow> nat" where
  "decimalValueRev [] = 0"
| "decimalValueRev (c # cs) = (unat c - 48) + 10 * decimalValueRev cs"

definition decimalValue :: "jsstring \<Rightarrow> nat" where
  "decimalValue ds = decimalValueRev (rev ds)"

definition integerValue :: "jsstring \<Rightarrow> int" where
  "integerValue v =
     (if take 1 v = [0x2D] then - int (decimalValue (drop 1 v))
      else if take 1 v = [0x2B] then int (decimalValue (drop 1 v))
      else int (decimalValue v))"

definition spec_age_valid :: "jsstring \<Rightarrow> bool" where
  "spec_age_valid v = (isIntegerLiteral v \<and> 16 \<le> integerValue v \<and> integerValue v \<le> 100)"

text \<open>
  A required field of a given type, name and value, with no file selected and no error
  annotation.
\<close>

definition input_field :: "string \<Rightarrow> string \<Rightarrow> jsstring \<Rightarrow> field" where
  "input_field t n v =
     \<lparr>field_type = t, field_name = n, field_value = v, field_files = [],
      field_required = True, field_errors = [], borderColor = ''''\<rparr>"

text \<open>
  The fields that no case of the \<^verbatim>\<open>switch\<close> checks: a text field named neither
  \<^verbatim>\<open>full_name\<close> nor \<^verbatim>\<open>application_id\<close>, a number field not named \<^verbatim>\<open>age\<close>, a field of
  a type other than text, number, file and select-one, and a file field with no file.
\<close>

definition unchecked_field :: "field \<Rightarrow> bool" where
  "unchecked_field f =
     ((field_type f = ''text'' \<and> field_name f \<noteq> ''full_name'' \<and> field_name f \<noteq> ''application_id'') \<or>
      (field_type f = ''number'' \<and> field_name f \<noteq> ''age'') \<or>
      (field_type f \<noteq> ''text'' \<and> field_type f \<noteq> ''number'' \<and> field_type f \<noteq> ''file'' \<and>
       field_type f \<noteq> ''select-one'') \<or>
      (field_type f = ''file'' \<and> field_files f = []))"

section \<open>Upload handling and webcam capture\<close>

text \<open>
  JavaScript errors, as values: the error of a failed \<^verbatim>\<open>fetch\<close> or of a property read on
  \<^verbatim>\<open>null\<close> (a \<^verbatim>\<open>TypeError\<close>), the error of a body that is not JSON (a \<^verbatim>\<open>SyntaxError\<close>), and
  \<^verbatim>\<open>new Error(message)\<close>.
\<close>

datatype exn = Error string | TypeError string | SyntaxError string

text \<open>
  What the upload handler asks of the page besides the state of the field: the preview of
  a file and the asynchronous quality analysis of a file; and what the capture adds, the
  success message, or the error that ends the callback when there is no capture button to
  attach the message to.
\<close>

datatype action =
    ShowImagePreview imageFile
  | AnalyzeImageQuality imageFile
  | ShowCaptureSuccess
  | Uncaught exn

text \<open>
  \<^verbatim>\<open>handleImageUpload\<close>, the listener that \<^verbatim>\<open>setupImageProcessing\<close> registers for the
  \<^verbatim>\<open>change\<close> event of every file input: with no file it returns; an invalid file is
  reported and the input emptied (\<^verbatim>\<open>input.value = ''\<close> empties the selected files of a file
  input); a valid file is previewed and analysed and the error annotation cleared.
\<close>

definition handleImageUpload :: "field \<Rightarrow> field \<times> action list" where
  "handleImageUpload input =
     (case field_files input of
        [] \<Rightarrow> (input, [])
      | file0 # others \<Rightarrow>
          if \<not> validateImageFile file0
          then ((showFieldError input ''Please upload a valid image file (JPEG, PNG) under 5MB'')
                  \<lparr>field_value := [], field_files := []\<rparr>, [])
          else (clearFieldError input, [ShowImagePreview file0, AnalyzeImageQuality file0]))"

text \<open>
  The elements \<^verbatim>\<open>initializeWebcam\<close> looks up. A video element has the size of its frames,
  its stream (\<^verbatim>\<open>srcObject\<close>, set by \<^verbatim>\<open>setupWebcam\<close> once the camera is granted) and the
  frame it shows; a canvas has its size and the frame drawn into it; a blob has a type and
  a size.
\<close>

record 'fr video_el =
  videoWidth :: nat
  videoHeight :: nat
  srcObject :: bool
  currentFrame :: 'fr

record 'fr canvas_el =
  canvas_width :: nat
  canvas_height :: nat
  bitmap :: "'fr option"

record button =
  disabled :: bool

record blob =
  blob_type :: string
  blob_size :: nat

text \<open>The calls the capture makes on the canvas and on the file input, in order.\<close>

datatype 'fr call =
    DrawImage 'fr nat nat
  | ToBlob string real
  | SetFiles "imageFile list"
  | DispatchEvent string

record 'fr platform =
  video :: "'fr video_el option"
  canvas :: "'fr canvas_el option"
  captureBtn :: "button option"
  fileInput :: "field option"
  calls :: "'fr call list"
  actions :: "action list"

text \<open>
  \<^verbatim>\<open>new File([blob], name, {type})\<close>: the file has the bytes of the blob; a \<^verbatim>\<open>null\<close> part
  is converted to the four characters of its name.
\<close>

definition newFile :: "blob option \<Rightarrow> string \<Rightarrow> string \<Rightarrow> imageFile" where
  "newFile part name type =
     \<lparr>file_name = name, file_type = type,
      file_size = (case part of None \<Rightarrow> 4 | Some b \<Rightarrow> blob_size b)\<rparr>"

definition showCaptureSuccess :: "'fr platform \<Rightarrow> 'fr platform" where
  "showCaptureSuccess p =
     (case captureBtn p of
        Some b \<Rightarrow> p\<lparr>actions := actions p @ [ShowCaptureSuccess]\<rparr>
      | None \<Rightarrow> p\<lparr>actions := actions p @ [Uncaught (TypeError ''Cannot read properties of null'')]\<rparr>)"

text \<open>
  \<^verbatim>\<open>this.fileInput.dispatchEvent(new Event('change', { bubbles: true }))\<close> runs the listener of
  the file input, \<open>handleImageUpload\<close>, on it.
\<close>

definition dispatchChange :: "'fr platform \<Rightarrow> 'fr platform" where
  "dispatchChange p =
     (case fileInput p of
        None \<Rightarrow> p
      | Some input \<Rightarrow>
          (case handleImageUpload input of
             (input', acts) \<Rightarrow>
               p\<lparr>fileInput := Some input',
                 calls := calls p @ [DispatchEvent ''change''],
                 actions := actions p @ acts\<rparr>))"

text \<open>
  \<^verbatim>\<open>input.files = list\<close> on a file input. The \<^verbatim>\<open>value\<close> of a file input is derived from
  its files: \<^verbatim>\<open>C:\<close>, a backslash, \<^verbatim>\<open>fakepath\<close> and a backslash, followed by the name of
  the first file; or the empty string when there is none.
\<close>

definition fakepath :: "imageFile list \<Rightarrow> jsstring" where
  "fakepath fs =
     (case fs of
        [] \<Rightarrow> []
      | f # rest \<Rightarrow> js ''C:'' @ [0x5C] @ js ''fakepath'' @ [0x5C] @ js (file_name f))"

definition setFiles :: "field \<Rightarrow> imageFile list \<Rightarrow> field" where
  "setFiles input fs = input\<lparr>field_files := fs, field_value := fakepath fs\<rparr>"

text \<open>The callback of \<^verbatim>\<open>canvas.toBlob\<close>, run with the blob the browser delivers.\<close>

definition toBlobCallback :: "'fr platform \<Rightarrow> blob option \<Rightarrow> 'fr platform" where
  "toBlobCallback p blob =
     (let file = newFile blob ''webcam_capture.jpg'' ''image/jpeg'';
          p1 = (case fileInput p of
                  Some input \<Rightarrow>
                    dispatchChange
                      (p\<lparr>fileInput := Some (setFiles input [file]),
                         calls := calls p @ [SetFiles [file]]\<rparr>)
                | None \<Rightarrow> p)
      in showCaptureSuccess p1)"

text \<open>
  \<^verbatim>\<open>captureWebcamPhoto\<close>. The encoder of the browser, which turns the canvas into the blob
  passed to the callback (or into \<^verbatim>\<open>null\<close>), is a parameter; the callback is run at once,
  with nothing else happening between the request and the delivery.
\<close>

definition captureWebcamPhoto ::
  "('fr canvas_el \<Rightarrow> string \<Rightarrow> real \<Rightarrow> blob option) \<Rightarrow> 'fr platform \<Rightarrow> 'fr platform" where
  "captureWebcamPhoto encoder p =
     (case video p of
        None \<Rightarrow> p
      | Some v \<Rightarrow>
          (case canvas p of
             None \<Rightarrow> p
           | Some c \<Rightarrow>
               let c' = \<lparr>canvas_width = videoWidth v, canvas_height = videoHeight v,
                         bitmap = Some (currentFrame v)\<rparr>;
                   p1 = p\<lparr>canvas := Some c',
                          calls := calls p @
                            [DrawImage (currentFrame v) (videoWidth v) (videoHeight v),
                             ToBlob ''image/jpeg'' 0.9]\<rparr>
               in toBlobCallback p1 (encoder c' ''image/jpeg'' 0.9)))"

text \<open>
  The state the specification calls StreamActive: the video element has its stream and the
  capture button is enabled, as \<^verbatim>\<open>setupWebcam\<close> leaves them when the camera is granted.
\<close>

definition StreamActive :: "'fr platform \<Rightarrow> bool" where
  "StreamActive p =
     ((case video p of Some v \<Rightarrow> srcObject v | None \<Rightarrow> False) \<and>
      (case captureBtn p of Some b \<Rightarrow> \<not> disabled b | None \<Rightarrow> False))"

text \<open>
  What the specification says of a capture, over the calls made: a JPEG encoding at
  quality 0.9 is requested, the files of the input are set once, to one file of type
  image/jpeg, and a change event is dispatched.
\<close>

fun isSetFiles :: "'fr call \<Rightarrow> bool" where
  "isSetFiles (SetFiles fs) = True"
| "isSetFiles _ = False"

definition spec_capture :: "'fr call list \<Rightarrow> bool" where
  "spec_capture cs =
     (ToBlob ''image/jpeg'' 0.9 \<in> set cs \<and>
      (case filter isSetFiles cs of
         [SetFiles [f]] \<Rightarrow> file_type f = ''image/jpeg''
       | _ \<Rightarrow> False) \<and>
      DispatchEvent ''change'' \<in> set cs)"

section \<open>The verification call\<close>

text \<open>
  The request \<^verbatim>\<open>fetch\<close> is called with, the response it resolves to (its \<^verbatim>\<open>ok\<close> flag and
  the outcome of \<^verbatim>\<open>response.json()\<close>, the parsed body or the error of the parser), and
  \<^verbatim>\<open>fetch\<close> itself as a parameter that fails with an error or resolves to a response.
\<close>

record request =
  req_url :: string
  req_method :: string
  req_body :: "(string \<times> imageFile) list"

record 'j response =
  ok :: bool
  json :: "exn + 'j"

text \<open>
  \<^verbatim>\<open>verifyFaceAPI\<close>: the pair of its outcome, \<open>Inl\<close> the error thrown to the caller or
  \<open>Inr\<close> the value returned, and the errors written with \<^verbatim>\<open>console.error\<close>.
\<close>

definition verifyFaceAPI ::
  "(request \<Rightarrow> exn + 'j response) \<Rightarrow> imageFile \<Rightarrow> (exn + 'j) \<times> exn list" where
  "verifyFaceAPI fetch imageFile =
     (let formData = [(''face_image'', imageFile)];
          tried =
            (case fetch \<lparr>req_url = ''/api/verify'', req_method = ''POST'', req_body = formData\<rparr> of
               Inl e \<Rightarrow> Inl e
             | Inr response \<Rightarrow>
                 if \<not> ok response then Inl (Error ''Verification failed'')
                 else json response)
      in case tried of
           Inl error \<Rightarrow> (Inl error, [error])
         | Inr result \<Rightarrow> (Inr result, []))"

text \<open>
  "Throws iff the fetch fails or the response is not ok", on the outcome of \<^verbatim>\<open>fetch\<close>.
\<close>

definition spec_fetch_failed :: "exn + 'j response \<Rightarrow> bool" where
  "spec_fetch_failed fetched = (case fetched of Inl e \<Rightarrow> True | Inr response \<Rightarrow> \<not> ok response)"

section \<open>Properties of the image quality estimator\<close>

declare brightnessLoop.simps [simp del] contrastLoop.simps [simp del]

lemma pixelBrightness_pixelMean:
  "4 * k + 3 < length d \<Longrightarrow> pixelBrightness d (4 * k) = Num (pixelMean d k)"
  by (simp add: pixelBrightness_def rd_def pixelMean_def)

lemma brightnessLoop_sum:
  assumes len: "length d = 4 * n"
  shows "k \<le> n \<Longrightarrow> brightnessLoop d (4 * k) (Num a) = Num (a + (\<Sum>j = k..<n. pixelMean d j))"
proof (induction "n - k" arbitrary: k a)
  case 0
  then have "k = n" by simp
  then show ?case using len by (subst brightnessLoop.simps) simp
next
  case (Suc m)
  then have kn: "k < n" and m: "m = n - Suc k" and le: "Suc k \<le> n" by simp_all
  have inr: "4 * k + 3 < length d" using kn len by simp
  have step: "brightnessLoop d (4 * k) (Num a) = brightnessLoop d (4 * Suc k) (Num (a + pixelMean d k))"
    using inr by (subst brightnessLoop.simps) (simp add: pixelBrightness_pixelMean add.commute)
  have "brightnessLoop d (4 * Suc k) (Num (a + pixelMean d k))
        = Num (a + pixelMean d k + (\<Sum>j = Suc k..<n. pixelMean d j))"
    using Suc.hyps(1) [OF m le] .
  then show ?case using step kn by (simp add: sum.atLeast_Suc_lessThan)
qed

lemma contrastLoop_sum:
  assumes len: "length d = 4 * n"
  shows "k \<le> n \<Longrightarrow> contrastLoop d (Num b) (4 * k) (Num a) = Num (a + (\<Sum>j = k..<n. (pixelMean d j - b)\<^sup>2))"
proof (induction "n - k" arbitrary: k a)
  case 0
  then have "k = n" by simp
  then show ?case using len by (subst contrastLoop.simps) simp
next
  case (Suc m)
  then have kn: "k < n" and m: "m = n - Suc k" and le: "Suc k \<le> n" by simp_all
  have inr: "4 * k + 3 < length d" using kn len by simp
  have step: "contrastLoop d (Num b) (4 * k) (Num a) = contrastLoop d (Num b) (4 * Suc k) (Num (a + (pixelMean d k - b)\<^sup>2))"
    using inr by (subst contrastLoop.simps) (simp add: pixelBrightness_pixelMean power2_eq_square add.commute)
  have "contrastLoop d (Num b) (4 * Suc k) (Num (a + (pixelMean d k - b)\<^sup>2))
        = Num (a + (pixelMean d k - b)\<^sup>2 + (\<Sum>j = Suc k..<n. (pixelMean d j - b)\<^sup>2))"
    using Suc.hyps(1) [OF m le] .
  then show ?case using step kn by (simp add: sum.atLeast_Suc_lessThan)
qed

lemma rgba_buffer_length: "rgba_buffer d \<Longrightarrow> length d = 4 * pixelCount d \<and> 0 < pixelCount d"
  unfolding rgba_buffer_def pixelCount_def length_greater_0_conv [symmetric] by presburger

lemma brightness_spec: 
  assumes "rgba_buffer d" shows "brightness d = Num (spec_brightness d)"
proof -
  from assms have len: "length d = 4 * pixelCount d" and pos: "0 < pixelCount d"
    using rgba_buffer_length by blast+
  have "brightnessLoop d (4 * 0) (Num 0) = Num (0 + (\<Sum>j = 0..<pixelCount d. pixelMean d j))"
    by (rule brightnessLoop_sum [OF len]) simp
  then have "brightnessLoop d 0 (Num 0) = Num (\<Sum>j<pixelCount d. pixelMean d j)"
    by (simp add: atLeast0LessThan)
  then show ?thesis using pos len
    by (simp add: brightness_def spec_brightness_def)
qed

lemma sum_sq_nonneg: "0 \<le> (\<Sum>j<n. (f j - (b::real))\<^sup>2)"
  by (rule sum_nonneg) simp

lemma contrast_spec: 
  assumes "rgba_buffer d" shows "contrast d = Num (spec_contrast d)"
proof -
  from assms have len: "length d = 4 * pixelCount d" and pos: "0 < pixelCount d"
    using rgba_buffer_length by blast+
  have "contrastLoop d (Num (spec_brightness d)) (4 * 0) (Num 0)
        = Num (0 + (\<Sum>j = 0..<pixelCount d. (pixelMean d j - spec_brightness d)\<^sup>2))"
    by (rule contrastLoop_sum [OF len]) simp
  then have loop: "contrastLoop d (Num (spec_brightness d)) 0 (Num 0)
        = Num (\<Sum>j<pixelCount d. (pixelMean d j - spec_brightness d)\<^sup>2)"
    by (simp add: atLeast0LessThan)
  have nn: "\<not> (\<Sum>j<pixelCount d. (pixelMean d j - spec_brightness d)\<^sup>2) / real (pixelCount d) < 0"
    using sum_sq_nonneg [of "pixelMean d" "spec_brightness d" "pixelCount d"] pos
    by (simp add: not_less)
  show ?thesis using pos len nn
    by (simp add: contrast_def brightness_spec [OF assms] loop spec_contrast_def)
qed


text \<open>\<open>NaN\<close>, the score of no RGBA buffer, compares false with every bound.\<close>

lemma generateQualityFeedback_NaN:
  "generateQualityFeedback NaN =
     ''Poor image quality - please retake with better lighting and focus''"
  by (simp add: generateQualityFeedback_def)


text \<open>
  Claim C3. For every non-empty RGBA pixel buffer the score of \<open>calculateImageQuality\<close>
  lies in \<open>[0, 1]\<close>. The code normalises the distance of the brightness from 127 by 127,
  while the brightness of a byte image reaches 255, at distance 128: on a single white
  pixel the brightness score is \<open>1 - 128 / 127\<close>, the contrast is \<open>0\<close>, and the score is
  negative.
\<close>

theorem calculateImageQuality_white_negative:
  "calculateImageQuality \<lparr>data = [255, 255, 255, 255], width = 1, height = 1\<rparr> = Num (- 2 / 635) \<and>
   \<not> nge (calculateImageQuality \<lparr>data = [255, 255, 255, 255], width = 1, height = 1\<rparr>) 0"
  by (simp add: calculateImageQuality_def brightnessScore_def contrastScore_def contrast_def
      brightness_def brightnessLoop.simps contrastLoop.simps pixelBrightness_def rd_def)

text \<open>
  The range of the score. On every non-empty RGBA buffer the score is a number between
  \<open>- 2 / 635\<close> and \<open>1\<close>, and it is not negative when the mean brightness is at most 254.
\<close>

lemma quality_spec_score:
  "rgba_buffer (data imageData) \<Longrightarrow>
   calculateImageQuality imageData = Num (spec_score (data imageData))"
  by (simp add: calculateImageQuality_def Let_def brightnessScore_def contrastScore_def
      brightness_spec contrast_spec spec_score_def spec_brightnessScore_def spec_contrastScore_def
      mult.commute)

lemma pixelMean_range: "0 \<le> pixelMean d k \<and> pixelMean d k \<le> 255"
proof -
  have b: "0 \<le> real (unat w) \<and> real (unat w) \<le> 255" for w :: "8 word"
  proof -
    have "unat w < 256" using unsigned_less [of w, where 'a = nat] by simp
    then have "unat w \<le> 255" by simp
    then have "real (unat w) \<le> real 255" by (rule of_nat_mono)
    moreover have "0 \<le> real (unat w)" by (rule of_nat_0_le_iff)
    ultimately show ?thesis by simp
  qed
  show ?thesis
    using b [of "d ! (4 * k)"] b [of "d ! (4 * k + 1)"] b [of "d ! (4 * k + 2)"]
    by (simp add: pixelMean_def)
qed

lemma spec_brightness_range:
  assumes "rgba_buffer d"
  shows "0 \<le> spec_brightness d \<and> spec_brightness d \<le> 255"
proof -
  from rgba_buffer_length [OF assms] have pos: "0 < pixelCount d" by simp
  have lo: "0 \<le> (\<Sum>k<pixelCount d. pixelMean d k)"
    by (rule sum_nonneg) (simp add: pixelMean_range)
  have "(\<Sum>k<pixelCount d. pixelMean d k) \<le> (\<Sum>k<pixelCount d. 255)"
    by (rule sum_mono) (simp add: pixelMean_range)
  then have hi: "(\<Sum>k<pixelCount d. pixelMean d k) \<le> 255 * real (pixelCount d)"
    by simp
  from lo hi pos show ?thesis
    by (simp add: spec_brightness_def pos_divide_le_eq)
qed

lemma spec_score_range:
  assumes "rgba_buffer d"
  shows "- 2 / 635 \<le> spec_score d \<and> spec_score d \<le> 1"
proof -
  from spec_brightness_range [OF assms]
  have "\<bar>spec_brightness d - 127\<bar> \<le> 128" by (simp add: abs_le_iff)
  then have bs: "- 1 / 127 \<le> spec_brightnessScore d \<and> spec_brightnessScore d \<le> 1"
    by (simp add: spec_brightnessScore_def)
  have "0 \<le> spec_contrast d" by (simp add: spec_contrast_def sum_nonneg)
  then have cs: "0 \<le> spec_contrastScore d \<and> spec_contrastScore d \<le> 1"
    by (simp add: spec_contrastScore_def)
  from bs cs show ?thesis by (simp add: spec_score_def)
qed

lemma spec_score_nonneg:
  assumes "rgba_buffer d" and "spec_brightness d \<le> 254"
  shows "0 \<le> spec_score d"
proof -
  from spec_brightness_range [OF assms(1)] assms(2)
  have "\<bar>spec_brightness d - 127\<bar> \<le> 127" by (simp add: abs_le_iff)
  then have bs: "0 \<le> spec_brightnessScore d"
    by (simp add: spec_brightnessScore_def)
  have "0 \<le> spec_contrast d" by (simp add: spec_contrast_def sum_nonneg)
  then have cs: "0 \<le> spec_contrastScore d"
    by (simp add: spec_contrastScore_def)
  from bs cs show ?thesis by (simp add: spec_score_def)
qed

lemma calculateImageQuality_range:
  assumes "rgba_buffer (data imageData)"
  shows "\<exists>s. calculateImageQuality imageData = Num s \<and> - 2 / 635 \<le> s \<and> s \<le> 1 \<and>
             (spec_brightness (data imageData) \<le> 254 \<longrightarrow> 0 \<le> s)"
  using quality_spec_score [OF assms] spec_score_range [OF assms] spec_score_nonneg [OF assms]
  by blast


lemma gray127_pixelMean: "gray127 d \<Longrightarrow> k < pixelCount d \<Longrightarrow> pixelMean d k = 127"
  by (simp add: gray127_def pixelMean_def)

lemma gray127_brightness:
  assumes "rgba_buffer d" "gray127 d" shows "spec_brightness d = 127"
proof -
  have "(\<Sum>k<pixelCount d. pixelMean d k) = (\<Sum>k<pixelCount d. 127)"
    by (rule sum.cong) (simp_all add: gray127_pixelMean [OF assms(2)])
  then show ?thesis using rgba_buffer_length [OF assms(1)]
    by (simp add: spec_brightness_def)
qed

lemma gray127_contrast:
  assumes "rgba_buffer d" "gray127 d" shows "spec_contrast d = 0"
proof -
  have "(\<Sum>k<pixelCount d. (pixelMean d k - spec_brightness d)\<^sup>2) = (\<Sum>k<pixelCount d. 0)"
    by (rule sum.cong) (simp_all add: gray127_pixelMean [OF assms(2)] gray127_brightness [OF assms])
  then show ?thesis by (simp add: spec_contrast_def)
qed

text \<open>
  Claim C7. For every non-empty RGBA buffer in which every pixel has R = G = B = 127,
  the brightness score is 1, the contrast is 0, the score is 0.4, and
  \<open>generateQualityFeedback\<close> classifies that score as "Fair".
\<close>

theorem gray127_quality_fair:
  assumes "rgba_buffer (data imageData)" and "gray127 (data imageData)"
  shows "brightnessScore (data imageData) = Num 1 \<and>
         contrast (data imageData) = Num 0 \<and>
         calculateImageQuality imageData = Num 0.4 \<and>
         generateQualityFeedback (calculateImageQuality imageData)
           = ''Fair image quality - consider retaking with better lighting''"
proof -
  let ?d = "data imageData"
  have b: "brightness ?d = Num 127"
    using brightness_spec [OF assms(1)] gray127_brightness [OF assms] by simp
  have c: "contrast ?d = Num 0"
    using contrast_spec [OF assms(1)] gray127_contrast [OF assms] by simp
  have bs: "brightnessScore ?d = Num 1" by (simp add: brightnessScore_def b)
  have q: "calculateImageQuality imageData = Num 0.4"
    by (simp add: calculateImageQuality_def Let_def bs contrastScore_def c)
  show ?thesis by (simp add: bs c q generateQualityFeedback_def)
qed

theorem gray127_quality_fair_witness:
  "rgba_buffer (data \<lparr>data = [127, 127, 127, 255, 127, 127, 127, 0], width = 2, height = 1\<rparr>) \<and>
   gray127 (data \<lparr>data = [127, 127, 127, 255, 127, 127, 127, 0], width = 2, height = 1\<rparr>) \<and>
   calculateImageQuality \<lparr>data = [127, 127, 127, 255, 127, 127, 127, 0], width = 2, height = 1\<rparr>
     = Num 0.4"
  using gray127_quality_fair
    [of "\<lparr>data = [127, 127, 127, 255, 127, 127, 127, 0], width = 2, height = 1\<rparr>"]
  by (simp add: rgba_buffer_def gray127_def pixelCount_def less_Suc_eq numeral_2_eq_2)

section \<open>Properties of the estimator in an arithmetic\<close>

text \<open>
  In every arithmetic the two loops of the code compute the two accumulated sums of the
  formula; in the exact arithmetic the formula is that of the specification.
\<close>

declare brightnessLoopIn.simps [simp del] contrastLoopIn.simps [simp del] binade.simps [simp del]

lemma pixelBrightnessIn_pixelMeanIn:
  "4 * k + 3 < length d \<Longrightarrow> pixelBrightnessIn ar d (4 * k) = Num (pixelMeanIn ar d k)"
  by (simp add: pixelBrightnessIn_def rd_def pixelMeanIn_def)

lemma brightnessLoopIn_fold:
  assumes len: "length d = 4 * n"
  shows "k \<le> n \<Longrightarrow>
         brightnessLoopIn ar d (4 * k) (Num a) =
         Num (foldl (\<lambda>a x. rnd ar (a + x)) a (map (pixelMeanIn ar d) [k..<n]))"
proof (induction "n - k" arbitrary: k a)
  case 0
  then have "k = n" by simp
  then show ?case using len by (subst brightnessLoopIn.simps) simp
next
  case (Suc m)
  then have kn: "k < n" and m: "m = n - Suc k" and le: "Suc k \<le> n" by simp_all
  have inr: "4 * k + 3 < length d" using kn len by simp
  have step: "brightnessLoopIn ar d (4 * k) (Num a) =
              brightnessLoopIn ar d (4 * Suc k) (Num (rnd ar (a + pixelMeanIn ar d k)))"
    using inr
    by (subst brightnessLoopIn.simps) (simp add: pixelBrightnessIn_pixelMeanIn add.commute)
  have "brightnessLoopIn ar d (4 * Suc k) (Num (rnd ar (a + pixelMeanIn ar d k))) =
        Num (foldl (\<lambda>a x. rnd ar (a + x)) (rnd ar (a + pixelMeanIn ar d k))
               (map (pixelMeanIn ar d) [Suc k..<n]))"
    using Suc.hyps(1) [OF m le] .
  then show ?case using step kn by (simp add: upt_conv_Cons)
qed

lemma contrastLoopIn_fold:
  assumes len: "length d = 4 * n"
  shows "k \<le> n \<Longrightarrow>
         contrastLoopIn ar d (Num b) (4 * k) (Num a) =
         Num (foldl (\<lambda>a x. rnd ar (a + x)) a
                (map (\<lambda>j. pow2 ar (rnd ar (pixelMeanIn ar d j - b))) [k..<n]))"
proof (induction "n - k" arbitrary: k a)
  case 0
  then have "k = n" by simp
  then show ?case using len by (subst contrastLoopIn.simps) simp
next
  case (Suc m)
  then have kn: "k < n" and m: "m = n - Suc k" and le: "Suc k \<le> n" by simp_all
  have inr: "4 * k + 3 < length d" using kn len by simp
  let ?t = "pow2 ar (rnd ar (pixelMeanIn ar d k - b))"
  have step: "contrastLoopIn ar d (Num b) (4 * k) (Num a) =
              contrastLoopIn ar d (Num b) (4 * Suc k) (Num (rnd ar (a + ?t)))"
    using inr
    by (subst contrastLoopIn.simps) (simp add: pixelBrightnessIn_pixelMeanIn add.commute)
  have "contrastLoopIn ar d (Num b) (4 * Suc k) (Num (rnd ar (a + ?t))) =
        Num (foldl (\<lambda>a x. rnd ar (a + x)) (rnd ar (a + ?t))
               (map (\<lambda>j. pow2 ar (rnd ar (pixelMeanIn ar d j - b))) [Suc k..<n]))"
    using Suc.hyps(1) [OF m le] .
  then show ?case using step kn by (simp add: upt_conv_Cons)
qed

lemma brightnessIn_spec:
  assumes "rgba_buffer d"
  shows "brightnessIn ar d = Num (spec_brightnessIn ar d)"
proof -
  from assms have len: "length d = 4 * pixelCount d" and pos: "0 < pixelCount d"
    using rgba_buffer_length by blast+
  have "brightnessLoopIn ar d (4 * 0) (Num 0) =
        Num (foldl (\<lambda>a x. rnd ar (a + x)) 0 (map (pixelMeanIn ar d) [0..<pixelCount d]))"
    by (rule brightnessLoopIn_fold [OF len]) simp
  then have "brightnessLoopIn ar d 0 (Num 0) =
             Num (sumIn ar (map (pixelMeanIn ar d) [0..<pixelCount d]))"
    by (simp add: sumIn_def)
  moreover have "real (length d) / 4 = real (pixelCount d)" using len by simp
  ultimately show ?thesis using pos len
    by (simp add: brightnessIn_def spec_brightnessIn_def)
qed

lemma contrastIn_spec:
  assumes "rgba_buffer d"
  shows "contrastIn ar d =
         (if spec_varianceIn ar d < 0 then NaN else Num (sqroot ar (spec_varianceIn ar d)))"
proof -
  from assms have len: "length d = 4 * pixelCount d" and pos: "0 < pixelCount d"
    using rgba_buffer_length by blast+
  have "contrastLoopIn ar d (Num (spec_brightnessIn ar d)) (4 * 0) (Num 0) =
        Num (foldl (\<lambda>a x. rnd ar (a + x)) 0
               (map (\<lambda>j. pow2 ar (rnd ar (pixelMeanIn ar d j - spec_brightnessIn ar d)))
                  [0..<pixelCount d]))"
    by (rule contrastLoopIn_fold [OF len]) simp
  then have loop: "contrastLoopIn ar d (Num (spec_brightnessIn ar d)) 0 (Num 0) =
        Num (sumIn ar
               (map (\<lambda>j. pow2 ar (rnd ar (pixelMeanIn ar d j - spec_brightnessIn ar d)))
                  [0..<pixelCount d]))"
    by (simp add: sumIn_def)
  have q: "real (length d) / 4 = real (pixelCount d)" using len by simp
  show ?thesis using pos len
    by (simp add: contrastIn_def brightnessIn_spec [OF assms] loop q spec_varianceIn_def)
qed

lemma quality_spec_scoreIn:
  assumes "rgba_buffer (data imageData)"
  shows "calculateImageQualityIn ar imageData = spec_scoreIn ar (data imageData)"
  using assms
  by (simp add: calculateImageQualityIn_def Let_def brightnessScoreIn_def contrastScoreIn_def
      brightnessIn_spec contrastIn_spec spec_scoreIn_def spec_brightnessScoreIn_def
      spec_contrastScoreIn_def mult.commute)

lemma foldl_add_sum_list: "foldl (\<lambda>a x. a + x) a xs = a + sum_list xs" for a :: real
  by (induction xs arbitrary: a) simp_all

lemma sumIn_exact: "sumIn exact (map f [0..<n]) = (\<Sum>k<n. f k)"
  by (simp add: sumIn_def exact_def foldl_add_sum_list interv_sum_list_conv_sum_set_nat
      atLeast0LessThan)

lemma pixelMeanIn_exact: "pixelMeanIn exact d k = pixelMean d k"
  by (simp add: pixelMeanIn_def pixelMean_def exact_def)

lemma spec_brightnessIn_exact: "spec_brightnessIn exact d = spec_brightness d"
proof -
  have "map (pixelMeanIn exact d) [0..<pixelCount d] = map (pixelMean d) [0..<pixelCount d]"
    by (simp add: pixelMeanIn_exact)
  then show ?thesis
    by (simp add: spec_brightnessIn_def spec_brightness_def sumIn_exact) (simp add: exact_def)
qed

lemma spec_varianceIn_exact:
  "spec_varianceIn exact d =
   (\<Sum>k<pixelCount d. (pixelMean d k - spec_brightness d)\<^sup>2) / real (pixelCount d)"
proof -
  have "map (\<lambda>k. pow2 exact (rnd exact (pixelMeanIn exact d k - spec_brightnessIn exact d)))
          [0..<pixelCount d] =
        map (\<lambda>k. (pixelMean d k - spec_brightness d)\<^sup>2) [0..<pixelCount d]"
    by (simp add: pixelMeanIn_exact spec_brightnessIn_exact power2_eq_square)
       (simp add: exact_def)
  then show ?thesis
    by (simp add: spec_varianceIn_def sumIn_exact) (simp add: exact_def)
qed

lemma spec_scoreIn_exact: "spec_scoreIn exact d = Num (spec_score d)"
proof -
  have nn: "\<not> spec_varianceIn exact d < 0"
    using sum_sq_nonneg [of "pixelMean d" "spec_brightness d" "pixelCount d"]
    by (simp add: spec_varianceIn_exact not_less)
  have c: "sqroot exact (spec_varianceIn exact d) = spec_contrast d"
    by (simp add: spec_varianceIn_exact spec_contrast_def) (simp add: exact_def)
  show ?thesis
    using nn
    by (simp add: spec_scoreIn_def spec_brightnessScoreIn_def spec_contrastScoreIn_def c
        spec_brightnessIn_exact spec_score_def spec_brightnessScore_def spec_contrastScore_def)
       (simp add: exact_def)
qed

subsection \<open>Evaluation in doubles\<close>

lemmas fl_eval = fl_def binade.simps twoTo_def roundTiesToEven_def Let_def

lemma fl_small_integers:
  "fl 0 = 0" "fl 1 = 1" "fl 2 = 2" "fl 3 = 3" "fl (- 126) = - 126" "fl 128 = 128"
  by (simp_all add: fl_eval)

lemma fl_literals:
  "fl (2 / 5) = 3602879701896397 / 9007199254740992"
  "fl (3 / 5) = 5404319552844595 / 9007199254740992"
  by (simp_all add: fl_eval)

lemma fl_126_127:
  "fl (126 / 127) = 558517276622719 / 562949953421312"
  "fl (4432676798593 / 562949953421312) = 4432676798593 / 562949953421312"
  by (simp_all add: fl_eval)

lemma fl_product:
  "fl (4432676798593 / 562949953421312 * (3602879701896397 / 9007199254740992))
   = 1815624416703693 / 576460752303423488"
  by (simp add: fl_eval)

lemma fl_score: "fl (1815624416703693 / 576460752303423488) = 1815624416703693 / 576460752303423488"
  by (simp add: fl_eval)

lemma fl_exact_score: "fl (2 / 635) = 1815624416703696 / 576460752303423488"
  by (simp add: fl_eval)

lemma quality_binary64_at_111:
  "calculateImageQualityIn binary64 \<lparr>data = [1, 1, 1, 255], width = 1, height = 1\<rparr>
   = Num (1815624416703693 / 576460752303423488)"
proof -
  let ?d = "[1, 1, 1, 255] :: 8 word list"
  have pb: "pixelBrightnessIn binary64 ?d 0 = Num 1"
    by (simp add: pixelBrightnessIn_def rd_def binary64_def fl_small_integers)
  have n: "rnd binary64 (real (length ?d) / 4) = 1"
    by (simp add: binary64_def fl_small_integers)
  have l1: "brightnessLoopIn binary64 ?d 0 (Num 0) = Num 1"
    by (simp add: brightnessLoopIn.simps pb) (simp add: binary64_def fl_small_integers)
  have b: "brightnessIn binary64 ?d = Num 1"
    by (simp add: brightnessIn_def l1 n) (simp add: binary64_def fl_small_integers)
  have l2: "contrastLoopIn binary64 ?d (Num 1) 0 (Num 0) = Num 0"
    by (simp add: contrastLoopIn.simps pb) (simp add: binary64_def fl_small_integers)
  have c: "contrastIn binary64 ?d = Num 0"
    by (simp add: contrastIn_def b l2 n) (simp add: binary64_def fl_small_integers)
  have bs: "brightnessScoreIn binary64 ?d = Num (4432676798593 / 562949953421312)"
    by (simp add: brightnessScoreIn_def b) (simp add: binary64_def fl_small_integers fl_126_127)
  have cs: "contrastScoreIn binary64 ?d = Num 0"
    by (simp add: contrastScoreIn_def c) (simp add: binary64_def fl_small_integers)
  have lit: "rnd binary64 0.4 = 3602879701896397 / 9007199254740992"
    using fl_literals(1) by (simp add: binary64_def)
  have m1: "rmul binary64 (Num (4432676798593 / 562949953421312))
              (Num (3602879701896397 / 9007199254740992))
            = Num (1815624416703693 / 576460752303423488)"
    using fl_product by (simp add: binary64_def)
  have m2: "rmul binary64 (Num 0) (Num (rnd binary64 0.6)) = Num 0"
    by (simp add: binary64_def fl_small_integers)
  have a: "radd binary64 (Num (1815624416703693 / 576460752303423488)) (Num 0)
           = Num (1815624416703693 / 576460752303423488)"
    using fl_score by (simp add: binary64_def)
  show ?thesis
    by (simp only: calculateImageQualityIn_def Let_def imageData.simps bs cs lit m1 m2 a)
qed

lemma spec_score_at_111: "spec_score [1, 1, 1, 255] = 2 / 635"
  by (simp add: spec_score_def spec_brightnessScore_def spec_contrastScore_def
      spec_contrast_def spec_brightness_def pixelCount_def pixelMean_def)

lemma rnd_binary64: "rnd binary64 x = fl x"
  by (simp add: binary64_def)

lemma pow2_binary64: "pow2 binary64 x = fl (x * x)"
  by (simp add: binary64_def)

lemma fl_black_gray:
  "fl 254 = 254" "fl 381 = 381" "fl 127 = 127"
  "fl (127 / 2) = 127 / 2" "fl (- (127 / 2)) = - (127 / 2)"
  "fl (16129 / 4) = 16129 / 4" "fl (16129 / 2) = 16129 / 2"
  "fl (1 / 2) = 1 / 2" "fl (127 / 128) = 127 / 128"
  "fl (3602879701896397 / 18014398509481984) = 3602879701896397 / 18014398509481984"
  by (simp_all add: fl_eval)

lemma fl_black_gray_rounded:
  "fl (127 / 128 * (5404319552844595 / 9007199254740992)) = 5362098306337997 / 9007199254740992"
  "fl (3602879701896397 / 18014398509481984 + 5362098306337997 / 9007199254740992)
     = 1790884539321549 / 2251799813685248"
  by (simp_all add: fl_eval)

text \<open>
  Two pixels, one black and one of gray 127: the formula is \<open>509 / 640\<close>, that is
  0.7953125, and the doubles give 0.7953125000000001.
\<close>

lemma quality_binary64_black_gray:
  "calculateImageQualityIn binary64
     \<lparr>data = [0, 0, 0, 255, 127, 127, 127, 255], width = 2, height = 1\<rparr>
   = Num (1790884539321549 / 2251799813685248) \<and>
   spec_score [0, 0, 0, 255, 127, 127, 127, 255] = 509 / 640"
proof -
  let ?d = "[0, 0, 0, 255, 127, 127, 127, 255] :: 8 word list"
  note f = rnd_binary64 pow2_binary64 fl_small_integers fl_black_gray
  have pb0: "pixelBrightnessIn binary64 ?d 0 = Num 0"
    by (simp add: pixelBrightnessIn_def rd_def f)
  have pb4: "pixelBrightnessIn binary64 ?d 4 = Num 127"
    by (simp add: pixelBrightnessIn_def rd_def f)
  have l1: "brightnessLoopIn binary64 ?d 0 (Num 0) = Num 127"
    by (simp add: brightnessLoopIn.simps pb0 pb4 f)
  have b: "brightnessIn binary64 ?d = Num (127 / 2)"
    by (simp add: brightnessIn_def l1 f)
  have l2: "contrastLoopIn binary64 ?d (Num (127 / 2)) 0 (Num 0) = Num (16129 / 2)"
    by (simp add: contrastLoopIn.simps pb0 pb4 f)
  have "(127 / 2 :: real)\<^sup>2 = 16129 / 4" by (simp add: power2_eq_square)
  then have sq: "sqrt (16129 / 4) = 127 / 2"
    by (intro real_sqrt_unique) simp_all
  have r: "sqroot binary64 (16129 / 4) = 127 / 2"
    by (simp add: binary64_def sq fl_black_gray)
  have c: "contrastIn binary64 ?d = Num (127 / 2)"
    by (simp add: contrastIn_def b l2 f r)
  have bs: "brightnessScoreIn binary64 ?d = Num (1 / 2)"
    by (simp add: brightnessScoreIn_def b f)
  have cs: "contrastScoreIn binary64 ?d = Num (127 / 128)"
    by (simp add: contrastScoreIn_def c f)
  have lit: "rnd binary64 0.4 = 3602879701896397 / 9007199254740992"
    "rnd binary64 0.6 = 5404319552844595 / 9007199254740992"
    using fl_literals by (simp_all add: binary64_def)
  have m1: "rmul binary64 (Num (1 / 2)) (Num (3602879701896397 / 9007199254740992))
            = Num (3602879701896397 / 18014398509481984)"
    by (simp add: f)
  have m2: "rmul binary64 (Num (127 / 128)) (Num (5404319552844595 / 9007199254740992))
            = Num (5362098306337997 / 9007199254740992)"
    using fl_black_gray_rounded(1) by (simp add: rnd_binary64)
  have a: "radd binary64 (Num (3602879701896397 / 18014398509481984))
             (Num (5362098306337997 / 9007199254740992))
           = Num (1790884539321549 / 2251799813685248)"
    using fl_black_gray_rounded(2) by (simp add: rnd_binary64)
  have q: "calculateImageQualityIn binary64 \<lparr>data = ?d, width = 2, height = 1\<rparr>
        = Num (1790884539321549 / 2251799813685248)"
    by (simp only: calculateImageQualityIn_def Let_def imageData.simps bs cs lit m1 m2 a)
  have pc: "pixelCount ?d = 2" by (simp add: pixelCount_def)
  have two: "{..<2 :: nat} = {0, 1}" by auto
  have sb: "spec_brightness ?d = 127 / 2"
    by (simp add: spec_brightness_def pc two pixelMean_def)
  have ss: "(\<Sum>k<2. (pixelMean ?d k - 127 / 2)\<^sup>2) = 16129 / 2"
    by (simp add: two pixelMean_def power2_eq_square)
  have "spec_contrast ?d = sqrt (16129 / 2 / real 2)"
    by (simp only: spec_contrast_def sb pc ss)
  then have sc: "spec_contrast ?d = 127 / 2"
    by (simp add: sq)
  have s: "spec_score ?d = 509 / 640"
    by (simp add: spec_score_def spec_brightnessScore_def spec_contrastScore_def sb sc)
  from q s show ?thesis by (rule conjI)
qed

text \<open>The score of a single white pixel is negative in doubles as well.\<close>

lemma quality_binary64_white:
  "calculateImageQualityIn binary64 \<lparr>data = [255, 255, 255, 255], width = 1, height = 1\<rparr>
   = Num (- 1815624416703693 / 576460752303423488)"
proof -
  let ?d = "[255, 255, 255, 255] :: 8 word list"
  have i: "fl 510 = 510" "fl 765 = 765" "fl 255 = 255"
    by (simp_all add: fl_eval)
  have q: "fl (128 / 127) = 567382630219905 / 562949953421312"
    "fl (- (4432676798593 / 562949953421312)) = - (4432676798593 / 562949953421312)"
    "fl (- (4432676798593 / 562949953421312) * (3602879701896397 / 9007199254740992))
       = - (1815624416703693 / 576460752303423488)"
    "fl (- (1815624416703693 / 576460752303423488)) = - (1815624416703693 / 576460752303423488)"
    by (simp_all add: fl_eval)
  have pb: "pixelBrightnessIn binary64 ?d 0 = Num 255"
    by (simp add: pixelBrightnessIn_def rd_def binary64_def i)
  have l1: "brightnessLoopIn binary64 ?d 0 (Num 0) = Num 255"
    by (simp add: brightnessLoopIn.simps pb) (simp add: binary64_def i)
  have b: "brightnessIn binary64 ?d = Num 255"
    by (simp add: brightnessIn_def l1) (simp add: binary64_def fl_small_integers i)
  have l2: "contrastLoopIn binary64 ?d (Num 255) 0 (Num 0) = Num 0"
    by (simp add: contrastLoopIn.simps pb) (simp add: binary64_def fl_small_integers)
  have c: "contrastIn binary64 ?d = Num 0"
    by (simp add: contrastIn_def b l2) (simp add: binary64_def fl_small_integers)
  have bs: "brightnessScoreIn binary64 ?d = Num (- (4432676798593 / 562949953421312))"
    by (simp add: brightnessScoreIn_def b) (simp add: binary64_def fl_small_integers q)
  have cs: "contrastScoreIn binary64 ?d = Num 0"
    by (simp add: contrastScoreIn_def c) (simp add: binary64_def fl_small_integers)
  have lit: "rnd binary64 0.4 = 3602879701896397 / 9007199254740992"
    using fl_literals(1) by (simp add: binary64_def)
  have m1: "rmul binary64 (Num (- (4432676798593 / 562949953421312)))
              (Num (3602879701896397 / 9007199254740992))
            = Num (- (1815624416703693 / 576460752303423488))"
    using q(3) by (simp add: binary64_def)
  have m2: "rmul binary64 (Num 0) (Num (rnd binary64 0.6)) = Num 0"
    by (simp add: binary64_def fl_small_integers)
  have a: "radd binary64 (Num (- (1815624416703693 / 576460752303423488))) (Num 0)
           = Num (- (1815624416703693 / 576460752303423488))"
    using q(4) by (simp add: binary64_def)
  have "calculateImageQualityIn binary64 \<lparr>data = ?d, width = 1, height = 1\<rparr>
        = Num (- (1815624416703693 / 576460752303423488))"
    by (simp only: calculateImageQualityIn_def Let_def imageData.simps bs cs lit m1 m2 a)
  then show ?thesis by simp
qed

text \<open>
  Claim C1, as the specification states it: for every non-empty RGBA pixel buffer
  \<open>calculateImageQuality\<close> returns exactly \<open>0.4 * brightnessScore + 0.6 * contrastScore\<close>,
  with the brightness the mean of the per-pixel \<open>(R + G + B) / 3\<close>, the contrast their
  population standard deviation, \<open>brightnessScore = 1 - |brightness - 127| / 127\<close> and
  \<open>contrastScore = min (contrast / 64) 1\<close>. The program computes in doubles. On the single
  pixel (1, 1, 1) the formula is \<open>2 / 635\<close>; the quotient \<open>126 / 127\<close> is rounded, the
  subtraction from 1 leaves that rounding error nearly 127 times as large relative to its
  result, and the number returned is neither \<open>2 / 635\<close> nor the double nearest to it,
  from which it is three doubles away.
\<close>

theorem calculateImageQuality_rounding_counterexample:
  "rgba_buffer (data \<lparr>data = [1, 1, 1, 255], width = 1, height = 1\<rparr>) \<and>
   calculateImageQualityIn binary64 \<lparr>data = [1, 1, 1, 255], width = 1, height = 1\<rparr>
     = Num (1815624416703693 / 576460752303423488) \<and>
   spec_score (data \<lparr>data = [1, 1, 1, 255], width = 1, height = 1\<rparr>) = 2 / 635 \<and>
   fl (2 / 635) = 1815624416703696 / 576460752303423488 \<and>
   calculateImageQualityIn binary64 \<lparr>data = [1, 1, 1, 255], width = 1, height = 1\<rparr>
     \<noteq> Num (spec_score (data \<lparr>data = [1, 1, 1, 255], width = 1, height = 1\<rparr>)) \<and>
   calculateImageQualityIn binary64 \<lparr>data = [1, 1, 1, 255], width = 1, height = 1\<rparr>
     \<noteq> Num (fl (spec_score (data \<lparr>data = [1, 1, 1, 255], width = 1, height = 1\<rparr>)))"
proof -
  let ?img = "\<lparr>data = [1, 1, 1, 255], width = 1, height = 1\<rparr>"
  have r: "rgba_buffer (data ?img)" by (simp add: rgba_buffer_def)
  have c: "calculateImageQualityIn binary64 ?img = Num (1815624416703693 / 576460752303423488)"
    by (rule quality_binary64_at_111)
  have s: "spec_score (data ?img) = 2 / 635" using spec_score_at_111 by simp
  have f: "fl (2 / 635) = 1815624416703696 / 576460752303423488" by (rule fl_exact_score)
  have n1: "(1815624416703693 / 576460752303423488 :: real) \<noteq> 2 / 635" by simp
  have n2: "(1815624416703693 / 576460752303423488 :: real)
            \<noteq> 1815624416703696 / 576460752303423488" by simp
  have d1: "calculateImageQualityIn binary64 ?img \<noteq> Num (spec_score (data ?img))"
    unfolding c s using n1 by simp
  have d2: "calculateImageQualityIn binary64 ?img \<noteq> Num (fl (spec_score (data ?img)))"
    unfolding c s f using n2 by simp
  from r c s f d1 d2 show ?thesis by (intro conjI)
qed

text \<open>
  Claim C1, amended: for every non-empty RGBA pixel buffer \<open>calculateImageQuality\<close> returns
  the value of \<open>0.4 * brightnessScore + 0.6 * contrastScore\<close>, with the brightness the mean
  of the per-pixel \<open>(R + G + B) / 3\<close>, the contrast their population standard deviation,
  \<open>brightnessScore = 1 - |brightness - 127| / 127\<close> and \<open>contrastScore = min (contrast / 64) 1\<close>,
  as computed in the arithmetic of the program: in doubles every operation and literal
  is rounded and the sums are accumulated from the first pixel to the last. In exact
  arithmetic, where nothing is rounded, the value is exactly that of the formula.
\<close>

theorem calculateImageQuality_in_arithmetic:
  assumes "rgba_buffer (data imageData)"
  shows "calculateImageQualityIn ar imageData = spec_scoreIn ar (data imageData) \<and>
         calculateImageQualityIn binary64 imageData = spec_scoreIn binary64 (data imageData) \<and>
         calculateImageQualityIn exact imageData = Num (spec_score (data imageData)) \<and>
         calculateImageQualityIn exact imageData = calculateImageQuality imageData"
  using assms
  by (simp add: quality_spec_scoreIn spec_scoreIn_exact quality_spec_score)

theorem calculateImageQuality_in_arithmetic_witness:
  "rgba_buffer (data \<lparr>data = [10, 20, 30, 255, 200, 100, 60, 255], width = 2, height = 1\<rparr>) \<and>
   calculateImageQualityIn binary64
     \<lparr>data = [10, 20, 30, 255, 200, 100, 60, 255], width = 2, height = 1\<rparr>
     = spec_scoreIn binary64
         (data \<lparr>data = [10, 20, 30, 255, 200, 100, 60, 255], width = 2, height = 1\<rparr>) \<and>
   calculateImageQualityIn exact
     \<lparr>data = [10, 20, 30, 255, 200, 100, 60, 255], width = 2, height = 1\<rparr>
     = Num (spec_score
         (data \<lparr>data = [10, 20, 30, 255, 200, 100, 60, 255], width = 2, height = 1\<rparr>))"
proof -
  let ?img = "\<lparr>data = [10, 20, 30, 255, 200, 100, 60, 255], width = 2, height = 1\<rparr>"
  have h: "rgba_buffer (data ?img)" by (simp add: rgba_buffer_def)
  from calculateImageQuality_in_arithmetic [OF h, of binary64]
  have a: "calculateImageQualityIn binary64 ?img = spec_scoreIn binary64 (data ?img)"
    and b: "calculateImageQualityIn exact ?img = Num (spec_score (data ?img))"
    by blast+
  from h a b show ?thesis by (intro conjI)
qed

subsection \<open>Integers are doubles\<close>

text \<open>
  Every integer below \<open>2 ^ 53\<close> in absolute value is a double: rounding leaves it as it is.
\<close>

lemma twoTo_pos: "0 < twoTo e"
  by (simp add: twoTo_def)

lemma twoTo_succ: "twoTo (e + 1) = 2 * twoTo e"
proof -
  consider "0 \<le> e" | "e = - 1" | "e < - 1" by linarith
  then show ?thesis
  proof cases
    case 1
    then have "nat (e + 1) = Suc (nat e)" by simp
    with 1 show ?thesis by (simp add: twoTo_def)
  next
    case 2
    then show ?thesis by (simp add: twoTo_def)
  next
    case 3
    then have "nat (- e) = Suc (nat (- (e + 1)))" by simp
    with 3 show ?thesis by (simp add: twoTo_def)
  qed
qed

lemma twoTo_mono: "e \<le> e' \<Longrightarrow> twoTo e \<le> twoTo e'"
proof (induction e' rule: int_ge_induct)
  case base
  show ?case by simp
next
  case (step i)
  have "twoTo i \<le> 2 * twoTo i" using twoTo_pos [of i] by simp
  with step show ?case by (simp add: twoTo_succ)
qed

lemma binade_bounds:
  "x \<noteq> 0 \<Longrightarrow> twoTo (binade x) \<le> \<bar>x\<bar> \<and> \<bar>x\<bar> < twoTo (binade x + 1)"
proof (induction x rule: binade.induct)
  case (1 x)
  show ?case
  proof (cases "2 \<le> \<bar>x\<bar>")
    case True
    with "1.prems" have b: "binade x = binade (x / 2) + 1"
      by (subst binade.simps) simp
    from "1.prems" have "x / 2 \<noteq> 0" by simp
    from "1.IH"(1) [OF "1.prems" True this]
    have ih1: "twoTo (binade (x / 2)) \<le> \<bar>x\<bar> / 2"
      and ih2: "\<bar>x\<bar> / 2 < twoTo (binade (x / 2) + 1)"
      by simp_all
    have s1: "twoTo (binade (x / 2) + 1) = 2 * twoTo (binade (x / 2))"
      by (rule twoTo_succ)
    have s2: "twoTo (binade (x / 2) + 1 + 1) = 2 * twoTo (binade (x / 2) + 1)"
      by (rule twoTo_succ)
    have "twoTo (binade (x / 2) + 1) \<le> \<bar>x\<bar>" using ih1 s1 by linarith
    moreover have "\<bar>x\<bar> < twoTo (binade (x / 2) + 1 + 1)" using ih2 s2 by linarith
    ultimately show ?thesis unfolding b by (rule conjI)
  next
    case False
    show ?thesis
    proof (cases "\<bar>x\<bar> < 1")
      case True
      with False "1.prems" have b: "binade x = binade (2 * x) - 1"
        by (subst binade.simps) simp
      from "1.prems" have "2 * x \<noteq> 0" by simp
      from "1.IH"(2) [OF "1.prems" False True this]
      have ih1: "twoTo (binade (2 * x)) \<le> 2 * \<bar>x\<bar>"
        and ih2: "2 * \<bar>x\<bar> < twoTo (binade (2 * x) + 1)"
        by (simp_all add: abs_mult)
      have s1: "twoTo (binade (2 * x) - 1 + 1) = 2 * twoTo (binade (2 * x) - 1)"
        by (rule twoTo_succ)
      have s2: "twoTo (binade (2 * x) + 1) = 2 * twoTo (binade (2 * x))"
        by (rule twoTo_succ)
      have e: "binade (2 * x) - 1 + 1 = binade (2 * x)" by simp
      have "twoTo (binade (2 * x) - 1) \<le> \<bar>x\<bar>" using ih1 s1 unfolding e by linarith
      moreover have "\<bar>x\<bar> < twoTo (binade (2 * x) - 1 + 1)" using ih2 s2 unfolding e by linarith
      ultimately show ?thesis unfolding b by (rule conjI)
    next
      case nl: False
      with False "1.prems" have "binade x = 0"
        by (subst binade.simps) simp
      with False nl show ?thesis by (simp add: twoTo_def)
    qed
  qed
qed

lemma roundTiesToEven_int: "roundTiesToEven (of_int z) = z"
  by (simp add: roundTiesToEven_def)

lemma fl_int:
  assumes "\<bar>m\<bar> < 2 ^ 53"
  shows "fl (of_int m) = of_int m"
proof (cases "m = 0")
  case True
  then show ?thesis
    by (simp add: fl_def roundTiesToEven_def Let_def)
next
  case False
  let ?e = "binade (of_int m)"
  from False have nz: "(of_int m :: real) \<noteq> 0" by simp
  from binade_bounds [OF nz]
  have lo: "twoTo ?e \<le> \<bar>of_int m\<bar>" and hi: "\<bar>of_int m :: real\<bar> < twoTo (?e + 1)" by simp_all
  have m1: "1 \<le> \<bar>of_int m :: real\<bar>" using False by (simp flip: of_int_abs)
  have m53: "\<bar>of_int m :: real\<bar> < 2 ^ 53" using assms by (simp flip: of_int_abs)
  have e0: "0 \<le> ?e"
  proof (rule ccontr)
    assume "\<not> 0 \<le> ?e"
    then have "?e + 1 \<le> 0" by simp
    from twoTo_mono [OF this] have "twoTo (?e + 1) \<le> 1" by (simp add: twoTo_def)
    with hi m1 show False by simp
  qed
  have e52: "?e \<le> 52"
  proof (rule ccontr)
    assume "\<not> ?e \<le> 52"
    then have "53 \<le> ?e" by simp
    from twoTo_mono [OF this] have "2 ^ 53 \<le> twoTo ?e" by (simp add: twoTo_def)
    with lo m53 show False by simp
  qed
  define k where "k = nat (52 - ?e)"
  have q: "twoTo (max ?e (- 1022) - 52) = 1 / 2 ^ k"
    using e0 e52 by (auto simp: twoTo_def k_def max_def)
  have "of_int m / (1 / 2 ^ k) = (of_int (m * 2 ^ k) :: real)" by simp
  then have "roundTiesToEven (of_int m / (1 / 2 ^ k)) = m * 2 ^ k"
    by (simp only: roundTiesToEven_int)
  then show ?thesis
    by (simp add: fl_def Let_def q)
qed

lemma fl_nat: "n < 2 ^ 53 \<Longrightarrow> fl (real n) = real n"
  using fl_int [of "int n"] by simp

subsection \<open>The gray image in doubles\<close>

text \<open>
  On a buffer of gray pixels of value 127 no operation of the estimator rounds, as long as
  the sum of the pixel values stays below \<open>2 ^ 53\<close>: the brightness score is 1, the
  contrast is 0, and the score is the double of the literal \<^verbatim>\<open>0.4\<close>, which the feedback ranks
  as fair.
\<close>

lemma fold_gray:
  "127 * (j + m) < 2 ^ 53 \<Longrightarrow>
   foldl (\<lambda>a x. fl (a + x)) (127 * real j) (replicate m 127) = 127 * real (j + m)"
proof (induction m arbitrary: j)
  case 0
  show ?case by simp
next
  case (Suc m)
  from Suc.prems have b: "127 * (Suc j + m) < 2 ^ 53" by simp
  from Suc.prems have "127 * Suc j < 2 ^ 53" by simp
  from fl_nat [OF this] have "fl (127 * real j + 127) = 127 * real (Suc j)"
    by (simp add: algebra_simps)
  with Suc.IH [OF b] show ?case by simp
qed

lemma fold_zeros: "foldl (\<lambda>a x. fl (a + x)) 0 (replicate m 0) = 0"
  by (induction m) (simp_all add: fl_small_integers)

lemma gray127_pixelMeanIn:
  assumes "gray127 d" and "k < pixelCount d"
  shows "pixelMeanIn binary64 d k = 127"
proof -
  have e: "fl 254 = 254" "fl 381 = 381" "fl 127 = 127" by (simp_all add: fl_eval)
  from assms show ?thesis
    by (simp add: gray127_def pixelMeanIn_def binary64_def e)
qed

lemma gray127_in_doubles:
  assumes r: "rgba_buffer d" and g: "gray127 d" and s: "127 * pixelCount d < 2 ^ 53"
  shows "spec_brightnessIn binary64 d = 127 \<and> spec_varianceIn binary64 d = 0"
proof -
  let ?n = "pixelCount d"
  from rgba_buffer_length [OF r] have pos: "0 < ?n" by simp
  have e: "fl 127 = 127" "fl 0 = 0" by (simp_all add: fl_eval)
  have "map (pixelMeanIn binary64 d) [0..<?n] = map (\<lambda>k. 127) [0..<?n]"
    by (rule map_cong) (simp_all add: gray127_pixelMeanIn [OF g])
  then have m: "map (pixelMeanIn binary64 d) [0..<?n] = replicate ?n 127"
    by (simp add: map_replicate_const)
  have "foldl (\<lambda>a x. fl (a + x)) (127 * real 0) (replicate ?n 127) = 127 * real (0 + ?n)"
    by (rule fold_gray) (use s in simp)
  then have sum: "sumIn binary64 (replicate ?n 127) = 127 * real ?n"
    by (simp add: sumIn_def binary64_def)
  from s have "?n < 2 ^ 53" by simp
  then have n: "fl (real ?n) = real ?n" by (rule fl_nat)
  have b: "spec_brightnessIn binary64 d = 127"
    using pos by (simp add: spec_brightnessIn_def m sum) (simp add: binary64_def n e)
  have "map (\<lambda>k. pow2 binary64 (rnd binary64 (pixelMeanIn binary64 d k - spec_brightnessIn binary64 d)))
          [0..<?n] = map (\<lambda>k. 0) [0..<?n]"
    by (rule map_cong) (simp_all add: gray127_pixelMeanIn [OF g] b, simp add: binary64_def e)
  then have m2: "map (\<lambda>k. pow2 binary64 (rnd binary64 (pixelMeanIn binary64 d k - spec_brightnessIn binary64 d)))
          [0..<?n] = replicate ?n 0"
    by (simp add: map_replicate_const)
  have v: "spec_varianceIn binary64 d = 0"
    by (simp add: spec_varianceIn_def m2) (simp add: sumIn_def binary64_def fold_zeros e)
  from b v show ?thesis by (rule conjI)
qed

lemma gray127_quality_in_doubles:
  assumes r: "rgba_buffer (data imageData)" and g: "gray127 (data imageData)"
    and s: "127 * pixelCount (data imageData) < 2 ^ 53"
  shows "brightnessIn binary64 (data imageData) = Num 127 \<and>
         contrastIn binary64 (data imageData) = Num 0 \<and>
         brightnessScoreIn binary64 (data imageData) = Num 1 \<and>
         calculateImageQualityIn binary64 imageData = Num (fl (2 / 5)) \<and>
         generateQualityFeedback (calculateImageQualityIn binary64 imageData)
           = ''Fair image quality - consider retaking with better lighting''"
proof -
  let ?d = "data imageData"
  from gray127_in_doubles [OF r g s]
  have b: "spec_brightnessIn binary64 ?d = 127" and v: "spec_varianceIn binary64 ?d = 0"
    by simp_all
  have e: "fl 0 = 0" "fl 1 = 1" by (simp_all add: fl_eval)
  have l: "fl (3602879701896397 / 9007199254740992) = 3602879701896397 / 9007199254740992"
    by (simp add: fl_eval)
  have bi: "brightnessIn binary64 ?d = Num 127"
    by (simp add: brightnessIn_spec [OF r] b)
  have ci: "contrastIn binary64 ?d = Num 0"
    by (simp add: contrastIn_spec [OF r] v) (simp add: binary64_def e)
  have bs: "brightnessScoreIn binary64 ?d = Num 1"
    by (simp add: brightnessScoreIn_def bi) (simp add: binary64_def e)
  have cs: "contrastScoreIn binary64 ?d = Num 0"
    by (simp add: contrastScoreIn_def ci) (simp add: binary64_def e)
  have q: "calculateImageQualityIn binary64 imageData = Num (fl (2 / 5))"
    by (simp add: calculateImageQualityIn_def Let_def bs cs)
       (simp add: binary64_def e fl_literals l)
  have f: "generateQualityFeedback (Num (fl (2 / 5)))
           = ''Fair image quality - consider retaking with better lighting''"
    by (simp add: generateQualityFeedback_def fl_literals)
  from bi ci bs q f show ?thesis by simp
qed

section \<open>Properties of the validators\<close>

text \<open>
  Claim C4. \<open>validateImageFile\<close> returns true iff the declared MIME type of the file is
  one of image/jpeg, image/jpg, image/png and its size is at most 5 * 1024 * 1024 bytes.
  In particular it returns false for a file of another type whatever its size, false for
  a file of 5 * 1024 * 1024 + 1 bytes or more whatever its type, and true for a file of
  exactly 5 * 1024 * 1024 bytes of a listed type.
\<close>

theorem validateImageFile_iff:
  "(validateImageFile f \<longleftrightarrow>
      (file_type f = ''image/jpeg'' \<or> file_type f = ''image/jpg'' \<or> file_type f = ''image/png'') \<and>
      file_size f \<le> 5 * 1024 * 1024) \<and>
   (file_type f \<noteq> ''image/jpeg'' \<and> file_type f \<noteq> ''image/jpg'' \<and> file_type f \<noteq> ''image/png''
      \<longrightarrow> \<not> validateImageFile f) \<and>
   (5 * 1024 * 1024 + 1 \<le> file_size f \<longrightarrow> \<not> validateImageFile f) \<and>
   ((file_type f = ''image/jpeg'' \<or> file_type f = ''image/jpg'' \<or> file_type f = ''image/png'') \<and>
    file_size f = 5 * 1024 * 1024 \<longrightarrow> validateImageFile f)"
  by (auto simp: validateImageFile_def validTypes_def maxSize_def)

theorem validateImageFile_iff_witness:
  "\<not> validateImageFile \<lparr>file_name = ''a.gif'', file_type = ''image/gif'', file_size = 10\<rparr> \<and>
   \<not> validateImageFile \<lparr>file_name = ''b.png'', file_type = ''image/png'', file_size = 5242881\<rparr> \<and>
   validateImageFile \<lparr>file_name = ''c.jpg'', file_type = ''image/jpeg'', file_size = 5242880\<rparr>"
  using validateImageFile_iff [of "\<lparr>file_name = ''a.gif'', file_type = ''image/gif'', file_size = 10\<rparr>"]
    validateImageFile_iff [of "\<lparr>file_name = ''b.png'', file_type = ''image/png'', file_size = 5242881\<rparr>"]
    validateImageFile_iff [of "\<lparr>file_name = ''c.jpg'', file_type = ''image/jpeg'', file_size = 5242880\<rparr>"]
  by simp

subsection \<open>Trimming\<close>

lemma list_all_dropWhile:
  "(\<And>c. Q c \<Longrightarrow> P c) \<Longrightarrow> list_all P (dropWhile Q s) = list_all P s"
  by (induction s) auto

lemma list_all_trim:
  assumes "\<And>c. isWhiteSpace c \<Longrightarrow> P c"
  shows "list_all P (trim s) = list_all P s"
proof -
  have "list_all P (trim s) = list_all P (dropWhile isWhiteSpace (rev (dropWhile isWhiteSpace s)))"
    by (simp add: trim_def)
  also have "\<dots> = list_all P (rev (dropWhile isWhiteSpace s))"
    by (rule list_all_dropWhile) (rule assms)
  also have "\<dots> = list_all P s"
    by (simp add: list_all_dropWhile assms)
  finally show ?thesis .
qed

lemma validateField_fst: "fst (validateField f) = fst (checkField f)"
  by (simp add: validateField_def split: prod.splits)

subsection \<open>The name field\<close>

text \<open>
  Claim C5, as the specification states it: the name validator reports valid iff the
  value has length at least 2 and consists of letters and white space only. The code
  trims the value first: a value of a letter and a space has length 2 and is rejected.
\<close>

theorem validateField_full_name_untrimmed_counterexample:
  "\<not> (fst (validateField (input_field ''text'' ''full_name'' (js ''J ''))) \<longleftrightarrow>
      spec_name_valid (js ''J ''))"
  by (simp add: validateField_fst checkField_def input_field_def js_def trim_def
      isWhiteSpace_def spec_name_valid_def isAsciiLetter_def)

text \<open>
  Claim C5, amended: the name validator reports valid iff the value, with the white
  space at its two ends removed, has length at least 2 and consists of the letters a-z,
  A-Z and white space only; equivalently, the trimmed value has length at least 2 and the
  whole value consists of such letters and white space. "Jane Doe" is valid, "J" and
  "Jane123" are invalid.
\<close>

theorem validateField_full_name:
  assumes "field_type f = ''text''" and "field_name f = ''full_name''"
  shows "(fst (validateField f) \<longleftrightarrow> spec_name_valid (trim (field_value f))) \<and>
         (fst (validateField f) \<longleftrightarrow>
            2 \<le> length (trim (field_value f)) \<and>
            list_all (\<lambda>c. isAsciiLetter c \<or> isWhiteSpace c) (field_value f)) \<and>
         fst (validateField (input_field ''text'' ''full_name'' (js ''Jane Doe''))) \<and>
         \<not> fst (validateField (input_field ''text'' ''full_name'' (js ''J''))) \<and>
         \<not> fst (validateField (input_field ''text'' ''full_name'' (js ''Jane123'')))"
proof -
  let ?v = "trim (field_value f)"
  have ne: "2 \<le> length ?v \<Longrightarrow> ?v \<noteq> []" by auto
  have a: "fst (validateField f) \<longleftrightarrow> spec_name_valid ?v"
    using assms ne
    by (auto simp: validateField_fst checkField_def Let_def test_letters_whitespace_def
        spec_name_valid_def)
  have b: "spec_name_valid ?v \<longleftrightarrow>
           2 \<le> length ?v \<and> list_all (\<lambda>c. isAsciiLetter c \<or> isWhiteSpace c) (field_value f)"
    by (simp add: spec_name_valid_def list_all_trim)
  have c: "fst (validateField (input_field ''text'' ''full_name'' (js ''Jane Doe'')))"
    by (simp add: validateField_fst checkField_def input_field_def js_def trim_def
        isWhiteSpace_def test_letters_whitespace_def isAsciiLetter_def)
  have d: "\<not> fst (validateField (input_field ''text'' ''full_name'' (js ''J'')))"
    by (simp add: validateField_fst checkField_def input_field_def js_def trim_def
        isWhiteSpace_def)
  have e: "\<not> fst (validateField (input_field ''text'' ''full_name'' (js ''Jane123'')))"
    by (simp add: validateField_fst checkField_def input_field_def js_def trim_def
        isWhiteSpace_def test_letters_whitespace_def isAsciiLetter_def)
  from a b c d e show ?thesis by blast
qed

theorem validateField_full_name_witness:
  "field_type (input_field ''text'' ''full_name'' (js '' Ada Lovelace '')) = ''text'' \<and>
   field_name (input_field ''text'' ''full_name'' (js '' Ada Lovelace '')) = ''full_name'' \<and>
   (fst (validateField (input_field ''text'' ''full_name'' (js '' Ada Lovelace ''))) \<longleftrightarrow>
    spec_name_valid (trim (field_value (input_field ''text'' ''full_name'' (js '' Ada Lovelace '')))))"
proof -
  let ?f = "input_field ''text'' ''full_name'' (js '' Ada Lovelace '')"
  have t: "field_type ?f = ''text''" and n: "field_name ?f = ''full_name''"
    by (simp_all add: input_field_def)
  from validateField_full_name [OF t n]
  have "fst (validateField ?f) \<longleftrightarrow> spec_name_valid (trim (field_value ?f))" by (elim conjE)
  with t n show ?thesis by (intro conjI)
qed

subsection \<open>The age field\<close>

lemma decimal_digit_value:
  "0x30 \<le> c \<Longrightarrow> c \<le> 0x39 \<Longrightarrow> digitValue c = unat c - 48 \<and> isRadixDigit 10 c"
  for c :: "16 word"
  by (simp add: digitValue_def isRadixDigit_def word_le_nat_alt)

lemma decimal_digit_not_space:
  "0x30 \<le> c \<Longrightarrow> c \<le> 0x39 \<Longrightarrow> \<not> isWhiteSpace c" for c :: "16 word"
  by (auto simp: isWhiteSpace_def word_le_nat_alt)

lemma decimalValue_snoc: "decimalValue (ds @ [c]) = decimalValue ds * 10 + (unat c - 48)"
  by (simp add: decimalValue_def)

lemma digitsValue_decimal:
  "list_all (\<lambda>c. 0x30 \<le> c \<and> c \<le> 0x39) ds \<Longrightarrow> digitsValue 10 ds = decimalValue ds"
proof (induction ds rule: rev_induct)
  case Nil
  show ?case by (simp add: digitsValue_def decimalValue_def)
next
  case (snoc c ds)
  then have "digitsValue 10 ds = decimalValue ds" and "digitValue c = unat c - 48"
    by (simp_all add: decimal_digit_value)
  then show ?case by (simp add: digitsValue_def decimalValue_snoc)
qed

lemma takeWhile_decimal:
  "list_all (\<lambda>c. 0x30 \<le> c \<and> c \<le> 0x39) ds \<Longrightarrow> takeWhile (isRadixDigit 10) ds = ds"
  by (induction ds) (simp_all add: decimal_digit_value)

lemma decimal_no_hex_prefix:
  "list_all (\<lambda>c. 0x30 \<le> c \<and> c \<le> (0x39 :: 16 word)) ds \<Longrightarrow>
   take 2 ds \<noteq> [0x30, 0x78] \<and> take 2 ds \<noteq> [0x30, 0x58]"
proof (cases ds)
  case Nil
  then show ?thesis by simp
next
  case (Cons a as)
  assume d: "list_all (\<lambda>c. 0x30 \<le> c \<and> c \<le> (0x39 :: 16 word)) ds"
  show ?thesis
  proof (cases as)
    case Nil
    with Cons show ?thesis by simp
  next
    case (Cons b bs)
    with d \<open>ds = a # as\<close> have "b \<le> 0x39" by simp
    then have "b \<noteq> 0x78" "b \<noteq> 0x58" by auto
    with Cons \<open>ds = a # as\<close> show ?thesis by simp
  qed
qed

lemma parseInt_digits:
  assumes "ds \<noteq> []" and "list_all (\<lambda>c. 0x30 \<le> c \<and> c \<le> 0x39) ds"
  shows "parseIntDigits sign ds = Some (sign * int (decimalValue ds))"
  using assms decimal_no_hex_prefix [OF assms(2)]
  by (simp add: parseIntDigits_def Let_def takeWhile_decimal digitsValue_decimal)

lemma parseInt_integer_literal:
  assumes "isIntegerLiteral v"
  shows "parseInt v = Some (integerValue v)"
proof (cases v)
  case Nil
  with assms show ?thesis by (simp add: isIntegerLiteral_def)
next
  case (Cons c cs)
  show ?thesis
  proof (cases "c = 0x2B \<or> c = 0x2D")
    case True
    then have ns: "\<not> isWhiteSpace c" by (auto simp: isWhiteSpace_def)
    from True Cons assms have ds: "cs \<noteq> []" "list_all (\<lambda>c. 0x30 \<le> c \<and> c \<le> 0x39) cs"
      by (auto simp: isIntegerLiteral_def)
    show ?thesis
    proof (cases "c = 0x2D")
      case True
      with ns Cons show ?thesis
        by (simp add: parseInt_def integerValue_def parseInt_digits [OF ds])
    next
      case False
      with \<open>c = 0x2B \<or> c = 0x2D\<close> have "c = 0x2B" by simp
      with ns Cons show ?thesis
        by (simp add: parseInt_def integerValue_def parseInt_digits [OF ds])
    qed
  next
    case False
    with Cons assms have ds: "c # cs \<noteq> []" "list_all (\<lambda>c. 0x30 \<le> c \<and> c \<le> 0x39) (c # cs)"
      by (auto simp: isIntegerLiteral_def)
    then have "\<not> isWhiteSpace c" by (simp add: decimal_digit_not_space)
    with False Cons show ?thesis
      by (simp add: parseInt_def integerValue_def parseInt_digits [OF ds])
  qed
qed

text \<open>
  Claim C6, as the specification states it: the age validator reports valid iff the
  value is an integer in [16, 100]. The code judges the value by \<^verbatim>\<open>parseInt\<close>, which reads
  the leading integer and ignores what follows it: the value 16.5 of a number field is
  reported valid and is not an integer.
\<close>

theorem validateField_age_integer_counterexample:
  "\<not> (fst (validateField (input_field ''number'' ''age'' (js ''16.5''))) \<longleftrightarrow>
      spec_age_valid (js ''16.5''))"
  by (simp add: validateField_fst checkField_def input_field_def js_def trim_def isWhiteSpace_def
      parseInt_def parseIntDigits_def Let_def isRadixDigit_def digitValue_def digitsValue_def
      spec_age_valid_def isIntegerLiteral_def)

lemmas age_eval =
  validateField_fst checkField_def input_field_def js_def trim_def isWhiteSpace_def
  parseInt_def parseIntDigits_def Let_def isRadixDigit_def digitValue_def digitsValue_def

text \<open>
  Claim C6, amended: the age validator reports valid iff \<^verbatim>\<open>parseInt\<close> of the trimmed
  value, the integer read from its leading sign and digits, is a number in [16, 100];
  for every value that is an integer literal (an optional sign and decimal digits only)
  this is: valid iff the integer is in [16, 100]. 16 and 100 are valid, 15, 101 and "abc"
  are invalid, and 16.5 is valid.
\<close>

theorem validateField_age:
  assumes "field_type f = ''number''" and "field_name f = ''age''"
  shows "(fst (validateField f) \<longleftrightarrow>
            (case parseInt (trim (field_value f)) of
               None \<Rightarrow> False | Some age \<Rightarrow> 16 \<le> age \<and> age \<le> 100)) \<and>
         (isIntegerLiteral (trim (field_value f)) \<longrightarrow>
            (fst (validateField f) \<longleftrightarrow> spec_age_valid (trim (field_value f)))) \<and>
         fst (validateField (input_field ''number'' ''age'' (js ''16''))) \<and>
         fst (validateField (input_field ''number'' ''age'' (js ''100''))) \<and>
         \<not> fst (validateField (input_field ''number'' ''age'' (js ''15''))) \<and>
         \<not> fst (validateField (input_field ''number'' ''age'' (js ''101''))) \<and>
         \<not> fst (validateField (input_field ''number'' ''age'' (js ''abc''))) \<and>
         fst (validateField (input_field ''number'' ''age'' (js ''16.5'')))"
proof -
  let ?v = "trim (field_value f)"
  have a: "fst (validateField f) \<longleftrightarrow>
            (case parseInt ?v of None \<Rightarrow> False | Some age \<Rightarrow> 16 \<le> age \<and> age \<le> 100)"
    using assms
    by (auto simp: validateField_fst checkField_def Let_def split: option.splits)
  have b: "isIntegerLiteral ?v \<longrightarrow> (fst (validateField f) \<longleftrightarrow> spec_age_valid ?v)"
    by (auto simp: a parseInt_integer_literal spec_age_valid_def)
  have c: "fst (validateField (input_field ''number'' ''age'' (js ''16'')))"
    by (simp add: age_eval)
  have d: "fst (validateField (input_field ''number'' ''age'' (js ''100'')))"
    by (simp add: age_eval)
  have e: "\<not> fst (validateField (input_field ''number'' ''age'' (js ''15'')))"
    by (simp add: age_eval)
  have g: "\<not> fst (validateField (input_field ''number'' ''age'' (js ''101'')))"
    by (simp add: age_eval)
  have h: "\<not> fst (validateField (input_field ''number'' ''age'' (js ''abc'')))"
    by (simp add: age_eval)
  have i: "fst (validateField (input_field ''number'' ''age'' (js ''16.5'')))"
    by (simp add: age_eval)
  from a b c d e g h i show ?thesis by blast
qed

theorem validateField_age_witness:
  "field_type (input_field ''number'' ''age'' (js '' 42 '')) = ''number'' \<and>
   field_name (input_field ''number'' ''age'' (js '' 42 '')) = ''age'' \<and>
   isIntegerLiteral (trim (field_value (input_field ''number'' ''age'' (js '' 42 '')))) \<and>
   fst (validateField (input_field ''number'' ''age'' (js '' 42 ''))) \<and>
   spec_age_valid (trim (field_value (input_field ''number'' ''age'' (js '' 42 ''))))"
proof -
  let ?f = "input_field ''number'' ''age'' (js '' 42 '')"
  have t: "field_type ?f = ''number''" and n: "field_name ?f = ''age''"
    by (simp_all add: input_field_def)
  have l: "isIntegerLiteral (trim (field_value ?f))"
    by (simp add: input_field_def js_def trim_def isWhiteSpace_def isIntegerLiteral_def)
  have s: "spec_age_valid (trim (field_value ?f))"
    by (simp add: input_field_def js_def trim_def isWhiteSpace_def spec_age_valid_def
        isIntegerLiteral_def integerValue_def decimalValue_def)
  from validateField_age [OF t n]
  have "isIntegerLiteral (trim (field_value ?f)) \<longrightarrow>
        (fst (validateField ?f) \<longleftrightarrow> spec_age_valid (trim (field_value ?f)))"
    by (elim conjE)
  with l s have "fst (validateField ?f)" by simp
  with t n l s show ?thesis by (intro conjI)
qed

subsection \<open>Unchecked fields\<close>

lemma clearFieldError_single:
  "length (field_errors f) \<le> 1 \<Longrightarrow> field_errors (clearFieldError f) = []"
  by (cases "field_errors f") (simp_all add: clearFieldError_def)

lemma validateField_single_annotation:
  "length (field_errors f) \<le> 1 \<Longrightarrow> length (field_errors (snd (validateField f))) \<le> 1"
  by (cases "field_errors f")
     (simp_all add: validateField_def showFieldError_def clearFieldError_def Let_def
       split: prod.splits)

text \<open>
  Claim C10, as the specification states it: for every field that no case of the
  \<^verbatim>\<open>switch\<close> checks, \<open>validateField\<close> returns valid and clears any prior error
  annotation. \<open>clearFieldError\<close> removes one \<^verbatim>\<open>.field-error\<close> element, the first below the
  parent node: when two are there (two fields of one parent that each placed one, the
  first in a nested element), the second stays.
\<close>

theorem validateField_unchecked_two_annotations_counterexample:
  "unchecked_field
     \<lparr>field_type = ''text'', field_name = ''city'', field_value = [], field_files = [],
      field_required = True,
      field_errors = [''Please select an option'', ''Age must be between 16 and 100''],
      borderColor = ''#e74c3c''\<rparr> \<and>
   \<not> (fst (validateField
     \<lparr>field_type = ''text'', field_name = ''city'', field_value = [], field_files = [],
      field_required = True,
      field_errors = [''Please select an option'', ''Age must be between 16 and 100''],
      borderColor = ''#e74c3c''\<rparr>) \<and>
      field_errors (snd (validateField
     \<lparr>field_type = ''text'', field_name = ''city'', field_value = [], field_files = [],
      field_required = True,
      field_errors = [''Please select an option'', ''Age must be between 16 and 100''],
      borderColor = ''#e74c3c''\<rparr>)) = [])"
  by (simp add: unchecked_field_def validateField_def checkField_def trim_def
      clearFieldError_def)

text \<open>
  Claim C10, amended. For every field that no case of the \<^verbatim>\<open>switch\<close> checks (a text field
  named neither \<^verbatim>\<open>full_name\<close> nor \<^verbatim>\<open>application_id\<close>, a number field not named \<^verbatim>\<open>age\<close>, a
  field of a type other than text, number, file and select-one, a file field with no file
  selected), \<open>validateField\<close> returns valid whatever the value of the field and does what
  \<open>clearFieldError\<close> does: it resets the border colour and removes the first error
  annotation below the parent node. No annotation is left when at most one was there.
\<close>

theorem validateField_unchecked:
  assumes "unchecked_field f"
  shows "fst (validateField f) \<and>
         snd (validateField f) = clearFieldError f \<and>
         borderColor (snd (validateField f)) = '''' \<and>
         field_errors (snd (validateField f)) = drop 1 (field_errors f) \<and>
         (length (field_errors f) \<le> 1 \<longrightarrow> field_errors (snd (validateField f)) = [])"
proof -
  from assms have "checkField f = (True, '''')"
    by (auto simp: unchecked_field_def checkField_def Let_def)
  then have v: "validateField f = (True, clearFieldError f)"
    by (simp add: validateField_def)
  have d: "field_errors (clearFieldError f) = drop 1 (field_errors f)"
    by (cases "field_errors f") (simp_all add: clearFieldError_def)
  have b: "borderColor (clearFieldError f) = []" by (simp add: clearFieldError_def)
  show ?thesis using clearFieldError_single [of f] by (simp add: v d b)
qed

theorem validateField_unchecked_witness:
  "validateField
     \<lparr>field_type = ''text'', field_name = ''city'', field_value = [], field_files = [],
      field_required = True, field_errors = [''Please select an option''], borderColor = ''#e74c3c''\<rparr>
   = (True,
      \<lparr>field_type = ''text'', field_name = ''city'', field_value = [], field_files = [],
       field_required = True, field_errors = [], borderColor = []\<rparr>) \<and>
   fst (validateField (input_field ''number'' ''quantity'' (js ''abc''))) \<and>
   fst (validateField (input_field ''email'' ''full_name'' (js ''1''))) \<and>
   fst (validateField (input_field ''file'' ''photo'' []))"
proof -
  let ?f = "\<lparr>field_type = ''text'', field_name = ''city'', field_value = [], field_files = [],
      field_required = True, field_errors = [''Please select an option''], borderColor = ''#e74c3c''\<rparr>"
  have u: "unchecked_field ?f" by (simp add: unchecked_field_def)
  from validateField_unchecked [OF u]
  have "fst (validateField ?f) \<and> snd (validateField ?f) = clearFieldError ?f"
    by (elim conjE) (intro conjI)
  then have "validateField ?f = (True, clearFieldError ?f)"
    by (cases "validateField ?f") simp
  then have a: "validateField ?f =
      (True, \<lparr>field_type = ''text'', field_name = ''city'', field_value = [], field_files = [],
       field_required = True, field_errors = [], borderColor = []\<rparr>)"
    by (simp add: clearFieldError_def)
  have "unchecked_field (input_field ''number'' ''quantity'' (js ''abc''))"
    by (simp add: unchecked_field_def input_field_def)
  from validateField_unchecked [OF this]
  have b: "fst (validateField (input_field ''number'' ''quantity'' (js ''abc'')))"
    by (elim conjE)
  have "unchecked_field (input_field ''email'' ''full_name'' (js ''1''))"
    by (simp add: unchecked_field_def input_field_def)
  from validateField_unchecked [OF this]
  have c: "fst (validateField (input_field ''email'' ''full_name'' (js ''1'')))"
    by (elim conjE)
  have "unchecked_field (input_field ''file'' ''photo'' [])"
    by (simp add: unchecked_field_def input_field_def)
  from validateField_unchecked [OF this]
  have d: "fst (validateField (input_field ''file'' ''photo'' []))"
    by (elim conjE)
  from a b c d show ?thesis by (intro conjI)
qed

section \<open>Properties of the capture and of the verification call\<close>

text \<open>
  Claim C8, as the specification states it: whenever a capture is triggered in the
  StreamActive state, the frame is encoded as a JPEG blob at quality 0.9, exactly one
  such file is placed into the file input, and a change event is dispatched.
  \<open>captureWebcamPhoto\<close> returns at once when the page has no canvas element, and its
  callback skips the file input when the page has none; the StreamActive state excludes
  neither. In the first case nothing is encoded and no file is placed, in the second the
  encoding is requested and no file is placed.
\<close>

theorem captureWebcamPhoto_no_canvas_counterexample:
  "StreamActive
     \<lparr>video = Some \<lparr>videoWidth = 2, videoHeight = 1, srcObject = True, currentFrame = (7 :: nat)\<rparr>,
      canvas = None, captureBtn = Some \<lparr>disabled = False\<rparr>,
      fileInput = Some (input_field ''file'' ''photo'' []), calls = [], actions = []\<rparr> \<and>
   \<not> spec_capture (calls (captureWebcamPhoto
     (\<lambda>c t q. Some \<lparr>blob_type = t, blob_size = 1000\<rparr>)
     \<lparr>video = Some \<lparr>videoWidth = 2, videoHeight = 1, srcObject = True, currentFrame = (7 :: nat)\<rparr>,
      canvas = None, captureBtn = Some \<lparr>disabled = False\<rparr>,
      fileInput = Some (input_field ''file'' ''photo'' []), calls = [], actions = []\<rparr>)) \<and>
   StreamActive
     \<lparr>video = Some \<lparr>videoWidth = 2, videoHeight = 1, srcObject = True, currentFrame = (7 :: nat)\<rparr>,
      canvas = Some \<lparr>canvas_width = 300, canvas_height = 150, bitmap = None\<rparr>,
      captureBtn = Some \<lparr>disabled = False\<rparr>,
      fileInput = None, calls = [], actions = []\<rparr> \<and>
   \<not> spec_capture (calls (captureWebcamPhoto
     (\<lambda>c t q. Some \<lparr>blob_type = t, blob_size = 1000\<rparr>)
     \<lparr>video = Some \<lparr>videoWidth = 2, videoHeight = 1, srcObject = True, currentFrame = (7 :: nat)\<rparr>,
      canvas = Some \<lparr>canvas_width = 300, canvas_height = 150, bitmap = None\<rparr>,
      captureBtn = Some \<lparr>disabled = False\<rparr>,
      fileInput = None, calls = [], actions = []\<rparr>))"
  by (simp add: StreamActive_def captureWebcamPhoto_def toBlobCallback_def
      showCaptureSuccess_def spec_capture_def)

lemma toBlobCallback_input:
  assumes "fileInput p = Some input"
  shows "toBlobCallback p blob =
         showCaptureSuccess
           (p\<lparr>fileInput := Some (fst (handleImageUpload
                  (setFiles input [newFile blob ''webcam_capture.jpg'' ''image/jpeg'']))),
              calls := calls p @ [SetFiles [newFile blob ''webcam_capture.jpg'' ''image/jpeg''],
                                  DispatchEvent ''change''],
              actions := actions p @ snd (handleImageUpload
                  (setFiles input [newFile blob ''webcam_capture.jpg'' ''image/jpeg'']))\<rparr>)"
  using assms
  by (simp add: toBlobCallback_def Let_def dispatchChange_def split: prod.splits)

lemma toBlobCallback_no_input:
  "fileInput p = None \<Longrightarrow> toBlobCallback p blob = showCaptureSuccess p"
  by (simp add: toBlobCallback_def)

lemma showCaptureSuccess_keeps:
  "calls (showCaptureSuccess p) = calls p \<and> fileInput (showCaptureSuccess p) = fileInput p \<and>
   canvas (showCaptureSuccess p) = canvas p"
  by (simp add: showCaptureSuccess_def split: option.splits)

text \<open>
  Claim C8, amended: when the video and the canvas elements exist, a capture draws the
  current frame into the canvas at the size of the video and requests its encoding as
  image/jpeg at quality 0.9; the blob delivered becomes a file named webcam_capture.jpg of
  type image/jpeg; when the upload file input exists, its files are set to exactly that
  file and a change event is dispatched, which runs \<open>handleImageUpload\<close> on the input as
  for a manual upload; when it does not exist, no file is placed. When the video or the
  canvas is missing, the capture does nothing.
\<close>

theorem captureWebcamPhoto_effect:
  "(video p = None \<or> canvas p = None \<longrightarrow> captureWebcamPhoto encoder p = p) \<and>
   (video p = Some v \<and> canvas p = Some c \<and> fileInput p = Some input \<longrightarrow>
      (let c' = \<lparr>canvas_width = videoWidth v, canvas_height = videoHeight v,
                 bitmap = Some (currentFrame v)\<rparr>;
           file = newFile (encoder c' ''image/jpeg'' (9 / 10)) ''webcam_capture.jpg'' ''image/jpeg'';
           made = [DrawImage (currentFrame v) (videoWidth v) (videoHeight v),
                   ToBlob ''image/jpeg'' (9 / 10), SetFiles [file], DispatchEvent ''change''];
           p' = captureWebcamPhoto encoder p
       in file_type file = ''image/jpeg'' \<and>
          file_size file = (case encoder c' ''image/jpeg'' (9 / 10) of
                              None \<Rightarrow> 4 | Some b \<Rightarrow> blob_size b) \<and>
          canvas p' = Some c' \<and>
          calls p' = calls p @ made \<and>
          spec_capture made \<and>
          fileInput p' = Some (fst (handleImageUpload (setFiles input [file]))) \<and>
          actions p' =
            actions p @ snd (handleImageUpload (setFiles input [file])) @
            [case captureBtn p of Some b \<Rightarrow> ShowCaptureSuccess
             | None \<Rightarrow> Uncaught (TypeError ''Cannot read properties of null'')])) \<and>
   (video p = Some v \<and> canvas p = Some c \<and> fileInput p = None \<longrightarrow>
      calls (captureWebcamPhoto encoder p) = calls p @
        [DrawImage (currentFrame v) (videoWidth v) (videoHeight v), ToBlob ''image/jpeg'' (9 / 10)] \<and>
      fileInput (captureWebcamPhoto encoder p) = None)"
proof (intro conjI impI)
  assume "video p = None \<or> canvas p = None"
  then show "captureWebcamPhoto encoder p = p"
    by (auto simp: captureWebcamPhoto_def split: option.splits)
next
  assume a: "video p = Some v \<and> canvas p = Some c \<and> fileInput p = Some input"
  then show "let c' = \<lparr>canvas_width = videoWidth v, canvas_height = videoHeight v,
                 bitmap = Some (currentFrame v)\<rparr>;
           file = newFile (encoder c' ''image/jpeg'' (9 / 10)) ''webcam_capture.jpg'' ''image/jpeg'';
           made = [DrawImage (currentFrame v) (videoWidth v) (videoHeight v),
                   ToBlob ''image/jpeg'' (9 / 10), SetFiles [file], DispatchEvent ''change''];
           p' = captureWebcamPhoto encoder p
       in file_type file = ''image/jpeg'' \<and>
          file_size file = (case encoder c' ''image/jpeg'' (9 / 10) of
                              None \<Rightarrow> 4 | Some b \<Rightarrow> blob_size b) \<and>
          canvas p' = Some c' \<and>
          calls p' = calls p @ made \<and>
          spec_capture made \<and>
          fileInput p' = Some (fst (handleImageUpload (setFiles input [file]))) \<and>
          actions p' =
            actions p @ snd (handleImageUpload (setFiles input [file])) @
            [case captureBtn p of Some b \<Rightarrow> ShowCaptureSuccess
             | None \<Rightarrow> Uncaught (TypeError ''Cannot read properties of null'')]"
    by (simp add: captureWebcamPhoto_def Let_def toBlobCallback_input showCaptureSuccess_def
        newFile_def spec_capture_def split: option.splits)
next
  assume a: "video p = Some v \<and> canvas p = Some c \<and> fileInput p = None"
  then show "calls (captureWebcamPhoto encoder p) = calls p @
        [DrawImage (currentFrame v) (videoWidth v) (videoHeight v), ToBlob ''image/jpeg'' (9 / 10)]"
    by (simp add: captureWebcamPhoto_def Let_def toBlobCallback_no_input showCaptureSuccess_keeps)
  from a show "fileInput (captureWebcamPhoto encoder p) = None"
    by (simp add: captureWebcamPhoto_def Let_def toBlobCallback_no_input showCaptureSuccess_keeps)
qed

theorem captureWebcamPhoto_effect_witness:
  "calls (captureWebcamPhoto (\<lambda>c t q. Some \<lparr>blob_type = t, blob_size = 1000\<rparr>)
     \<lparr>video = Some \<lparr>videoWidth = 2, videoHeight = 1, srcObject = True, currentFrame = (7 :: nat)\<rparr>,
      canvas = Some \<lparr>canvas_width = 300, canvas_height = 150, bitmap = None\<rparr>,
      captureBtn = Some \<lparr>disabled = False\<rparr>,
      fileInput = Some (input_field ''file'' ''photo'' []), calls = [], actions = []\<rparr>)
   = [DrawImage 7 2 1, ToBlob ''image/jpeg'' (9 / 10),
      SetFiles [\<lparr>file_name = ''webcam_capture.jpg'', file_type = ''image/jpeg'', file_size = 1000\<rparr>],
      DispatchEvent ''change''] \<and>
   captureWebcamPhoto (\<lambda>c t q. Some \<lparr>blob_type = t, blob_size = 1000\<rparr>)
     \<lparr>video = None :: nat video_el option,
      canvas = Some \<lparr>canvas_width = 300, canvas_height = 150, bitmap = None\<rparr>,
      captureBtn = None, fileInput = None, calls = [], actions = []\<rparr>
   = \<lparr>video = None,
      canvas = Some \<lparr>canvas_width = 300, canvas_height = 150, bitmap = None\<rparr>,
      captureBtn = None, fileInput = None, calls = [], actions = []\<rparr> \<and>
   calls (captureWebcamPhoto (\<lambda>c t q. Some \<lparr>blob_type = t, blob_size = 1000\<rparr>)
     \<lparr>video = Some \<lparr>videoWidth = 2, videoHeight = 1, srcObject = True, currentFrame = (7 :: nat)\<rparr>,
      canvas = Some \<lparr>canvas_width = 300, canvas_height = 150, bitmap = None\<rparr>,
      captureBtn = Some \<lparr>disabled = False\<rparr>,
      fileInput = None, calls = [], actions = []\<rparr>)
   = [DrawImage 7 2 1, ToBlob ''image/jpeg'' (9 / 10)]"
  using
    captureWebcamPhoto_effect
      [where encoder = "\<lambda>c t q. Some \<lparr>blob_type = t, blob_size = 1000\<rparr>"
         and p = "\<lparr>video = Some \<lparr>videoWidth = 2, videoHeight = 1, srcObject = True, currentFrame = (7 :: nat)\<rparr>,
            canvas = Some \<lparr>canvas_width = 300, canvas_height = 150, bitmap = None\<rparr>,
            captureBtn = Some \<lparr>disabled = False\<rparr>,
            fileInput = Some (input_field ''file'' ''photo'' []), calls = [], actions = []\<rparr>"
         and v = "\<lparr>videoWidth = 2, videoHeight = 1, srcObject = True, currentFrame = 7\<rparr>"
         and c = "\<lparr>canvas_width = 300, canvas_height = 150, bitmap = None\<rparr>"
         and input = "input_field ''file'' ''photo'' []"]
    captureWebcamPhoto_effect
      [where encoder = "\<lambda>c t q. Some \<lparr>blob_type = t, blob_size = 1000\<rparr>"
         and p = "\<lparr>video = None :: nat video_el option,
            canvas = Some \<lparr>canvas_width = 300, canvas_height = 150, bitmap = None\<rparr>,
            captureBtn = None, fileInput = None, calls = [], actions = []\<rparr>"]
    captureWebcamPhoto_effect
      [where encoder = "\<lambda>c t q. Some \<lparr>blob_type = t, blob_size = 1000\<rparr>"
         and p = "\<lparr>video = Some \<lparr>videoWidth = 2, videoHeight = 1, srcObject = True, currentFrame = (7 :: nat)\<rparr>,
            canvas = Some \<lparr>canvas_width = 300, canvas_height = 150, bitmap = None\<rparr>,
            captureBtn = Some \<lparr>disabled = False\<rparr>,
            fileInput = None, calls = [], actions = []\<rparr>"
         and v = "\<lparr>videoWidth = 2, videoHeight = 1, srcObject = True, currentFrame = 7\<rparr>"
         and c = "\<lparr>canvas_width = 300, canvas_height = 150, bitmap = None\<rparr>"]
  by (simp add: Let_def newFile_def)

text \<open>
  Claim C9, as the specification states it: \<open>verifyFaceAPI\<close> throws iff the fetch fails or
  the response is not ok, and otherwise returns the body parsed as JSON. The parsing is
  inside the \<^verbatim>\<open>try\<close> block as well: an ok response whose body is not JSON makes
  \<^verbatim>\<open>response.json()\<close> fail, and that error is logged and thrown too.
\<close>

theorem verifyFaceAPI_bad_json_counterexample:
  "\<not> (isl (fst (verifyFaceAPI
          (\<lambda>r. Inr \<lparr>ok = True, json = Inl (SyntaxError ''Unexpected token'') :: exn + string\<rparr>)
          \<lparr>file_name = ''face.jpg'', file_type = ''image/jpeg'', file_size = 1000\<rparr>))
       \<longleftrightarrow> spec_fetch_failed
          (Inr \<lparr>ok = True, json = Inl (SyntaxError ''Unexpected token'') :: exn + string\<rparr>))"
  by (simp add: verifyFaceAPI_def spec_fetch_failed_def)

text \<open>
  Claim C9, amended: \<open>verifyFaceAPI\<close> throws iff the fetch fails, the response is not ok,
  or the body of an ok response fails to parse as JSON. The error thrown is the error of
  the fetch, the error "Verification failed", or the error of the parser; it is written to
  the console once before it is thrown, and no error is swallowed. Otherwise the parsed
  body is returned and nothing is logged. The request is a POST to /api/verify with the
  image as the field face_image.
\<close>

theorem verifyFaceAPI_outcome:
  "(let fetched = fetch \<lparr>req_url = ''/api/verify'', req_method = ''POST'',
                         req_body = [(''face_image'', imageFile)]\<rparr>;
        r = verifyFaceAPI fetch imageFile
    in (isl (fst r) \<longleftrightarrow>
          (case fetched of Inl e \<Rightarrow> True | Inr response \<Rightarrow> \<not> ok response \<or> isl (json response))) \<and>
       (isl (fst r) \<longleftrightarrow>
          spec_fetch_failed fetched \<or>
          (case fetched of Inl e \<Rightarrow> False | Inr response \<Rightarrow> ok response \<and> isl (json response))) \<and>
       (case fetched of
          Inl e \<Rightarrow> fst r = Inl e
        | Inr response \<Rightarrow>
            if \<not> ok response then fst r = Inl (Error ''Verification failed'')
            else fst r = json response) \<and>
       (case fst r of Inl e \<Rightarrow> snd r = [e] | Inr result \<Rightarrow> snd r = []))"
  by (auto simp: verifyFaceAPI_def Let_def spec_fetch_failed_def split: sum.splits)

theorem verifyFaceAPI_outcome_witness:
  "verifyFaceAPI (\<lambda>r. Inl (TypeError ''Failed to fetch'') :: exn + string response)
     \<lparr>file_name = ''face.jpg'', file_type = ''image/jpeg'', file_size = 1000\<rparr>
     = (Inl (TypeError ''Failed to fetch''), [TypeError ''Failed to fetch'']) \<and>
   verifyFaceAPI (\<lambda>r. Inr \<lparr>ok = False, json = Inr ''{}''\<rparr>)
     \<lparr>file_name = ''face.jpg'', file_type = ''image/jpeg'', file_size = 1000\<rparr>
     = (Inl (Error ''Verification failed''), [Error ''Verification failed'']) \<and>
   verifyFaceAPI (\<lambda>r. Inr \<lparr>ok = True, json = Inr ''{}''\<rparr>)
     \<lparr>file_name = ''face.jpg'', file_type = ''image/jpeg'', file_size = 1000\<rparr>
     = (Inr ''{}'', [])"
  using
    verifyFaceAPI_outcome
      [of "\<lambda>r. Inl (TypeError ''Failed to fetch'') :: exn + string response"
          "\<lparr>file_name = ''face.jpg'', file_type = ''image/jpeg'', file_size = 1000\<rparr>"]
    verifyFaceAPI_outcome
      [of "\<lambda>r. Inr \<lparr>ok = False, json = Inr ''{}'' :: exn + string\<rparr>"
          "\<lparr>file_name = ''face.jpg'', file_type = ''image/jpeg'', file_size = 1000\<rparr>"]
    verifyFaceAPI_outcome
      [of "\<lambda>r. Inr \<lparr>ok = True, json = Inr ''{}'' :: exn + string\<rparr>"
          "\<lparr>file_name = ''face.jpg'', file_type = ''image/jpeg'', file_size = 1000\<rparr>"]
  by (simp add: Let_def verifyFaceAPI_def)

end
